theory Spec2Isabelle
  imports Complex_Main
begin

section \<open>Settings (app/config.py)\<close>

text \<open>The default value of \<open>settings.news_categories\<close>.\<close>

definition news_categories :: "string list" where
  "news_categories =
     [''Cybersecurity'',
      ''Artificial Intelligence & Emerging Tech'',
      ''Software & Development'',
      ''Hardware & Devices'',
      ''Tech Industry & Business'',
      ''Other'']"

section \<open>Python values used by the code\<close>

text \<open>
  A Python string is a list of characters, one per code point, so that \<open>s[:n]\<close> is
  \<open>take n s\<close>; the characters of the model are the code points 0 to 255. Truthiness of an
  optional string (\<open>str | None\<close>): \<open>None\<close> and the empty string are false, everything else
  is true.
\<close>

definition truthy :: "string option \<Rightarrow> bool" where
  "truthy s = (case s of None \<Rightarrow> False | Some t \<Rightarrow> t \<noteq> [])"

text \<open>\<open>x or ""\<close> on an optional string.\<close>

definition or_empty :: "string option \<Rightarrow> string" where
  "or_empty s = (case s of None \<Rightarrow> [] | Some t \<Rightarrow> t)"

text \<open>
  \<open>str(n)\<close> on an integer: the decimal digits, with a minus sign when negative. This is
  \<open>str\<close> on integers of at most 4300 digits, which every row id is.
\<close>

definition digit_char :: "nat \<Rightarrow> char" where
  "digit_char d = ''0123456789'' ! d"

fun str_nat :: "nat \<Rightarrow> string" where
  "str_nat n = (if n < 10 then [digit_char n] else str_nat (n div 10) @ [digit_char (n mod 10)])"

definition str_int :: "int \<Rightarrow> string" where
  "str_int i = (if i < 0 then CHR ''-'' # str_nat (nat (- i)) else str_nat (nat i))"

text \<open>
  \<open>int(s)\<close> on a string, \<open>None\<close> standing for \<open>ValueError\<close>: surrounding whitespace is
  stripped, one sign is allowed, and the body is decimal digits that single underscores may
  separate, at most 4300 of them (the interpreter's default limit). Among the code points 0
  to 255 the whitespace that \<open>int\<close> strips is 9 to 13, 32, 133 and 160, and the only decimal
  digits are \<open>0\<close> to \<open>9\<close>.
\<close>

definition py_isspace :: "char \<Rightarrow> bool" where
  "py_isspace c = ((of_char c :: nat) \<in> {9, 10, 11, 12, 13, 32, 133, 160})"

definition strip :: "string \<Rightarrow> string" where
  "strip s = rev (dropWhile py_isspace (rev (dropWhile py_isspace s)))"

definition is_digit :: "char \<Rightarrow> bool" where
  "is_digit c = (48 \<le> (of_char c :: nat) \<and> (of_char c :: nat) \<le> 57)"

definition digit_val :: "char \<Rightarrow> nat" where
  "digit_val c = of_char c - 48"

fun digits_ok :: "string \<Rightarrow> bool" where
  "digits_ok [] = False"
| "digits_ok [c] = is_digit c"
| "digits_ok (c # d # cs) =
     (is_digit c \<and> (if d = CHR ''_'' then digits_ok cs else digits_ok (d # cs)))"

definition digits_value :: "string \<Rightarrow> nat" where
  "digits_value s = foldl (\<lambda>n c. 10 * n + digit_val c) 0 (filter (\<lambda>c. c \<noteq> CHR ''_'') s)"

definition py_int :: "string \<Rightarrow> int option" where
  "py_int s =
     (let t = strip s;
          neg = (t \<noteq> [] \<and> hd t = CHR ''-'');
          body = (if t \<noteq> [] \<and> (hd t = CHR ''-'' \<or> hd t = CHR ''+'') then tl t else t)
      in if digits_ok body \<and> length (filter (\<lambda>c. c \<noteq> CHR ''_'') body) \<le> 4300
         then Some (if neg then - int (digits_value body) else int (digits_value body))
         else None)"

text \<open>The outcome of a call that may raise.\<close>

datatype 'a outcome = Raises | Returns 'a

section \<open>Relational store (app/database.py)\<close>

text \<open>
  A row of table \<open>articles\<close>. The field names are the columns of class \<open>Article\<close> with
  the prefix \<open>a_\<close>. Timestamps are abstract points in time.
\<close>

type_synonym datetime = nat

record article =
  a_id :: int
  a_title :: string
  a_url :: string
  a_summary :: "string option"
  a_source :: string
  a_category :: "string option"
  a_published_date :: "datetime option"
  a_created_at :: datetime

text \<open>\<open>Article.to_dict\<close>; the ISO rendering of the two timestamps is left abstract.\<close>

record article_dict =
  j_id :: int
  j_title :: string
  j_url :: string
  j_summary :: "string option"
  j_source :: string
  j_category :: "string option"
  j_published_date :: "datetime option"
  j_created_at :: "datetime option"

definition to_dict :: "article \<Rightarrow> article_dict" where
  "to_dict a =
     \<lparr>j_id = a_id a, j_title = a_title a, j_url = a_url a, j_summary = a_summary a,
      j_source = a_source a, j_category = a_category a,
      j_published_date = a_published_date a, j_created_at = Some (a_created_at a)\<rparr>"

text \<open>
  The dict that \<open>collect_from_rss\<close> hands to \<open>save_articles\<close>; the field names are its keys
  with the prefix \<open>r_\<close>.
\<close>

record raw_article =
  r_title :: string
  r_url :: string
  r_summary :: string
  r_source :: string
  r_published_date :: "datetime option"

section \<open>Vector index (the ChromaDB collection of app/embeddings.py)\<close>

text \<open>The metadata dict stored with an embedding, and one entry of the collection.\<close>

record meta =
  m_title :: string
  m_category :: "string option"
  m_source :: string

record emb_record =
  e_id :: string
  e_embedding :: "real list"
  e_metadata :: meta
  e_document :: string

text \<open>The dict returned by \<open>collection.query\<close>, for the one query embedding that is sent.\<close>

record query_result =
  q_ids :: "string list list"
  q_distances :: "real list list option"
  q_metadatas :: "meta list list option"

text \<open>One element of the list that \<open>EmbeddingService.search\<close> returns.\<close>

record match =
  article_id :: int
  score :: real
  metadata :: "meta option"

section \<open>State and environment\<close>

text \<open>
  The trace records, in order, the session openings, the calls to the classifier and to the
  embedder, and the summary line that the reconciler logs.
\<close>

datatype event =
    GetSession
  | ClassifyCall string string
  | EmbedCall string
  | SyncComplete nat nat

record state =
  db :: "article list"
  collection :: "emb_record list"
  trace :: "event list"

text \<open>
  Everything outside the repository is an oracle of the environment. Each oracle sees the
  trace so far, so the same request may be answered differently at different times.
  Remote calls and store writes may raise. Reads of either store are taken to succeed, but
  for a \<open>LIMIT\<close> taken from the request that does not fit in 64 bits, which the database
  driver refuses.

  A float is the real number it denotes. The subtraction of two floats is the field
  \<open>float_sub\<close>: it rounds as the machine does, which the model leaves to the environment.
  \<open>random_rowid\<close> is the row id that SQLite draws once the largest id is in use.
\<close>

record env =
  mock_mode :: bool
  float_sub :: "real \<Rightarrow> real \<Rightarrow> real"
  random_rowid :: "event list \<Rightarrow> int"
  randbelow :: "event list \<Rightarrow> nat \<Rightarrow> nat"
  responses_parse :: "event list \<Rightarrow> string \<Rightarrow> string outcome"
  embeddings_create :: "event list \<Rightarrow> string \<Rightarrow> real list outcome"
  utcnow :: "event list \<Rightarrow> datetime"
  commit_raises :: "event list \<Rightarrow> article \<Rightarrow> bool"
  collection_add_raises :: "event list \<Rightarrow> emb_record \<Rightarrow> bool"
  collection_query ::
    "event list \<Rightarrow> emb_record list \<Rightarrow> real list \<Rightarrow> int \<Rightarrow> string option \<Rightarrow> query_result outcome"

definition log_event :: "event \<Rightarrow> state \<Rightarrow> state" where
  "log_event e st = st\<lparr>trace := trace st @ [e]\<rparr>"

definition classify_calls :: "event list \<Rightarrow> nat" where
  "classify_calls tr = length (filter (\<lambda>e. case e of ClassifyCall _ _ \<Rightarrow> True | _ \<Rightarrow> False) tr)"

definition embed_calls :: "event list \<Rightarrow> nat" where
  "embed_calls tr = length (filter (\<lambda>e. case e of EmbedCall _ \<Rightarrow> True | _ \<Rightarrow> False) tr)"

section \<open>Classifier (app/classifier.py)\<close>

text \<open>\<open>_mock_classify\<close>: \<open>random.choice\<close> draws an index below the length of the list.\<close>

definition mock_classify :: "env \<Rightarrow> state \<Rightarrow> string" where
  "mock_classify env st =
     news_categories ! (randbelow env (trace st) (length news_categories) mod length news_categories)"

text \<open>
  \<open>classify_article\<close>. The whole request to the model, parsing of the answer included, is
  the oracle \<open>responses_parse\<close>, which yields the \<open>category\<close> field or raises.
\<close>

definition classify_article :: "env \<Rightarrow> state \<Rightarrow> string \<Rightarrow> string \<Rightarrow> string \<times> state" where
  "classify_article env st title summary =
     (let st1 = log_event (ClassifyCall title summary) st in
      if mock_mode env then (mock_classify env st1, st1)
      else
        let content = ''Title: '' @ title;
            content = (if summary \<noteq> [] then content @ [CHR 0x0A] @ ''Summary: '' @ summary
                       else content)
        in case responses_parse env (trace st1) content of
             Raises \<Rightarrow> (''Software & Development'', st1)
           | Returns category \<Rightarrow>
               (if category \<notin> set news_categories then (''Software & Development'', st1)
                else (category, st1)))"

section \<open>Embeddings (app/embeddings.py)\<close>

definition create_embedding :: "env \<Rightarrow> state \<Rightarrow> string \<Rightarrow> real list \<times> state" where
  "create_embedding env st text =
     (let st1 = log_event (EmbedCall text) st in
      case embeddings_create env (trace st1) (take 8000 text) of
        Raises \<Rightarrow> ([], st1)
      | Returns v \<Rightarrow> (v, st1))"

text \<open>
  The collection: \<open>get(ids=...)\<close> returns the entries with one of the ids, \<open>count()\<close> is
  the number of entries, \<open>get()\<close> returns them all, and \<open>add\<close> appends an entry unless its
  id is already there.
\<close>

definition collection_get :: "string list \<Rightarrow> emb_record list \<Rightarrow> emb_record list" where
  "collection_get ids coll = filter (\<lambda>r. e_id r \<in> set ids) coll"

definition collection_count :: "emb_record list \<Rightarrow> nat" where
  "collection_count coll = length coll"

definition collection_add :: "emb_record \<Rightarrow> emb_record list \<Rightarrow> emb_record list" where
  "collection_add r coll = (if e_id r \<in> set (map e_id coll) then coll else coll @ [r])"

definition add_article ::
  "env \<Rightarrow> state \<Rightarrow> int \<Rightarrow> string \<Rightarrow> string \<Rightarrow> string option \<Rightarrow> string \<Rightarrow> state" where
  "add_article env st aid title summary category source =
     (let text = title @ ''. '' @ summary;
          existing = collection_get [str_int aid] (collection st)
      in if map e_id existing \<noteq> [] then st
         else
           let (embedding, st1) = create_embedding env st text
           in if embedding = [] then st1
              else
                let r = \<lparr>e_id = str_int aid, e_embedding = embedding,
                         e_metadata = \<lparr>m_title = take 200 title, m_category = category,
                                       m_source = source\<rparr>,
                         e_document = take 1000 text\<rparr>
                in if collection_add_raises env (trace st1) r then st1
                   else st1\<lparr>collection := collection_add r (collection st1)\<rparr>)"

text \<open>
  The loop of \<open>search\<close> over \<open>enumerate(results['ids'][0])\<close>; \<open>None\<close> stands for an
  exception (an index out of range, or an id that \<open>int\<close> rejects).
\<close>

definition score_at :: "env \<Rightarrow> query_result \<Rightarrow> nat \<Rightarrow> real option" where
  "score_at env results i =
     (case q_distances results of
        Some (d # ds) \<Rightarrow> (if i < length d then Some (float_sub env 1 (d ! i)) else None)
      | _ \<Rightarrow> Some 0)"

definition metadata_at :: "query_result \<Rightarrow> nat \<Rightarrow> meta option option" where
  "metadata_at results i =
     (case q_metadatas results of
        Some (m # ms) \<Rightarrow> (if i < length m then Some (Some (m ! i)) else None)
      | _ \<Rightarrow> Some None)"

fun build_matches ::
  "env \<Rightarrow> query_result \<Rightarrow> nat \<Rightarrow> string list \<Rightarrow> match list option" where
  "build_matches env results i [] = Some []"
| "build_matches env results i (s # rest) =
     (case (score_at env results i, py_int s, metadata_at results i) of
        (Some sc, Some n, Some md) \<Rightarrow>
          (case build_matches env results (Suc i) rest of
             None \<Rightarrow> None
           | Some ms \<Rightarrow> Some (\<lparr>article_id = n, score = sc, metadata = md\<rparr> # ms))
      | _ \<Rightarrow> None)"

definition search ::
  "env \<Rightarrow> state \<Rightarrow> string \<Rightarrow> string option \<Rightarrow> int \<Rightarrow> match list \<times> state" where
  "search env st query category limit =
     (let (query_embedding, st1) = create_embedding env st query
      in if query_embedding = [] then ([], st1)
         else
           let where_filter = (if truthy category then category else None)
           in case collection_query env (trace st1) (collection st1) query_embedding limit
                     where_filter of
                Raises \<Rightarrow> ([], st1)
              | Returns results \<Rightarrow>
                  (if q_ids results \<noteq> [] \<and> hd (q_ids results) \<noteq> []
                   then (case build_matches env results 0 (hd (q_ids results)) of
                           None \<Rightarrow> ([], st1)
                         | Some matches \<Rightarrow> (matches, st1))
                   else ([], st1)))"

text \<open>
  \<open>sync_missing_embeddings\<close>. The function has no \<open>return\<close> statement, so its value is
  \<open>None\<close>; \<open>missing_count\<close> only reaches the log line.
\<close>

fun sync_loop :: "env \<Rightarrow> string list \<Rightarrow> article list \<Rightarrow> nat \<times> state \<Rightarrow> nat \<times> state" where
  "sync_loop env existing_ids [] acc = acc"
| "sync_loop env existing_ids (a # rest) (missing_count, st) =
     (if str_int (a_id a) \<notin> set existing_ids
      then sync_loop env existing_ids rest
             (missing_count + 1,
              add_article env st (a_id a) (a_title a) (or_empty (a_summary a))
                (a_category a) (a_source a))
      else sync_loop env existing_ids rest (missing_count, st))"

definition sync_missing_embeddings :: "env \<Rightarrow> state \<Rightarrow> nat option \<times> state" where
  "sync_missing_embeddings env st =
     (let st0 = log_event GetSession st;
          all_articles = db st0;
          db_count = length all_articles;
          existing_ids = (if collection_count (collection st0) > 0
                          then map e_id (collection st0) else []);
          (missing_count, st1) = sync_loop env existing_ids all_articles (0, st0)
      in (None, log_event (SyncComplete db_count missing_count) st1))"

section \<open>Collector (app/collector.py)\<close>

text \<open>
  \<open>Article(...)\<close>, \<open>session.add\<close> and \<open>session.commit\<close>: the row gets the next row id and
  the current time; the unique index on \<open>url\<close> rejects a second row with the same URL, and
  the commit may fail for another reason. SQLite assigns an integer primary key thus: 1 in
  an empty table, else the largest id plus one; once the largest id is the largest 64-bit
  integer, an unused id drawn at random. Its giving up after repeated draws that are in use
  is one of the failures that \<open>commit_raises\<close> stands for.
\<close>

datatype commit_error = IntegrityError | OtherError

definition next_id :: "env \<Rightarrow> event list \<Rightarrow> article list \<Rightarrow> int" where
  "next_id env tr rows =
     (case map a_id rows of
        [] \<Rightarrow> 1
      | i # is \<Rightarrow> (if fold max is i < 2 ^ 63 - 1 then fold max is i + 1 else random_rowid env tr))"

definition add_commit ::
  "env \<Rightarrow> state \<Rightarrow> raw_article \<Rightarrow> string \<Rightarrow> commit_error + article \<times> state" where
  "add_commit env st d category =
     (let article = \<lparr>a_id = next_id env (trace st) (db st), a_title = r_title d,
                     a_url = r_url d,
                     a_summary = Some (r_summary d), a_source = r_source d,
                     a_category = Some category, a_published_date = r_published_date d,
                     a_created_at = utcnow env (trace st)\<rparr>
      in if a_url article \<in> set (map a_url (db st)) then Inl IntegrityError
         else if commit_raises env (trace st) article then Inl OtherError
         else Inr (article, st\<lparr>db := db st @ [article]\<rparr>))"

text \<open>
  The body of the loop of \<open>save_articles\<close>: both \<open>except\<close> branches roll the session
  back, which drops the pending row, and leave \<open>saved_count\<close> as it is.
\<close>

definition save_one :: "env \<Rightarrow> nat \<times> state \<Rightarrow> raw_article \<Rightarrow> nat \<times> state" where
  "save_one env acc d =
     (let (saved_count, st) = acc;
          (category, st1) = classify_article env st (r_title d) (r_summary d)
      in case add_commit env st1 d category of
           Inl err \<Rightarrow> (saved_count, st1)
         | Inr (article, st2) \<Rightarrow>
             (saved_count + 1,
              add_article env st2 (a_id article) (a_title article)
                (or_empty (a_summary article)) (Some category) (a_source article)))"

fun save_loop :: "env \<Rightarrow> raw_article list \<Rightarrow> nat \<times> state \<Rightarrow> nat \<times> state" where
  "save_loop env [] acc = acc"
| "save_loop env (d # rest) acc = save_loop env rest (save_one env acc d)"

definition save_articles :: "env \<Rightarrow> state \<Rightarrow> raw_article list \<Rightarrow> nat \<times> state" where
  "save_articles env st articles = save_loop env articles (0, log_event GetSession st)"

section \<open>Search endpoint (app/api.py)\<close>

record search_request =
  rq_prompt :: "string option"
  rq_category :: "string option"
  rq_limit :: int

record search_response =
  rs_count :: nat
  rs_articles :: "article_dict list"
  rs_search_type :: string

text \<open>
  The errors of the endpoint: an \<open>HTTPException\<close> that the code raises, with status and
  detail, and an exception that nothing catches, which the framework answers with status 500.
\<close>

datatype http_error = HTTPException nat string | InternalServerError

text \<open>
  The rendering of \<open>valid_categories\<close> inside the error detail: \<open>repr\<close> of a list of
  strings that contain no quote and nothing to escape.
\<close>

fun join :: "string \<Rightarrow> string list \<Rightarrow> string" where
  "join sep [] = []"
| "join sep [x] = x"
| "join sep (x # y # ys) = x @ sep @ join sep (y # ys)"

definition repr_list :: "string list \<Rightarrow> string" where
  "repr_list xs = ''['' @ join '', '' (map (\<lambda>x. [CHR 0x27] @ x @ [CHR 0x27]) xs) @ '']''"

text \<open>
  \<open>query.limit(k).all()\<close>: the driver raises \<open>OverflowError\<close> for a limit that is not a
  64-bit integer, and SQLite reads a negative limit as no limit.
\<close>

definition sql_limit :: "int \<Rightarrow> 'a list \<Rightarrow> 'a list outcome" where
  "sql_limit k xs =
     (if k < - (2 ^ 63) \<or> 2 ^ 63 \<le> k then Raises
      else if k < 0 then Returns xs
      else Returns (take (nat k) xs))"

definition search_news ::
  "env \<Rightarrow> state \<Rightarrow> search_request \<Rightarrow> (http_error + search_response) \<times> state" where
  "search_news env st request =
     (if \<not> truthy (rq_prompt request) \<and> \<not> truthy (rq_category request)
      then (Inl (HTTPException 400
                  (''At least one of '' @ [CHR 0x27] @ ''prompt'' @ [CHR 0x27] @ '' or ''
                   @ [CHR 0x27] @ ''category'' @ [CHR 0x27] @ '' is required'')), st)
      else if truthy (rq_category request)
              \<and> or_empty (rq_category request) \<notin> set news_categories
      then (Inl (HTTPException 400
                  (''Invalid category. Valid options: '' @ repr_list news_categories)), st)
      else
        let st1 = log_event GetSession st
        in if truthy (rq_prompt request)
           then
             let (results, st2) = search env st1 (or_empty (rq_prompt request))
                                    (rq_category request) (rq_limit request);
                 articles = map to_dict
                              (List.map_filter
                                 (\<lambda>r. find (\<lambda>a. a_id a = article_id r) (db st2)) results)
             in (Inr \<lparr>rs_count = length articles, rs_articles = articles,
                      rs_search_type = ''semantic''\<rparr>, st2)
           else
             case sql_limit (rq_limit request)
                    (filter (\<lambda>a. a_category a = rq_category request) (db st1)) of
               Raises \<Rightarrow> (Inl InternalServerError, st1)
             | Returns rows \<Rightarrow>
                 let articles = map to_dict rows
                 in (Inr \<lparr>rs_count = length articles, rs_articles = articles,
                          rs_search_type = ''category''\<rparr>, st1))"

section \<open>A stub environment and sample data\<close>

text \<open>
  Stubs for the adapters: the classifier answers \<open>Cybersecurity\<close>, the embedder returns a
  fixed vector, both stores accept every write, and a query returns the first \<open>n_results\<close>
  entries of the collection at distance 0. The subtraction of the stub is exact: the examples
  subtract only 0 and 2 from 1, and those differences are floats.
\<close>

definition stub_query ::
  "event list \<Rightarrow> emb_record list \<Rightarrow> real list \<Rightarrow> int \<Rightarrow> string option \<Rightarrow> query_result outcome" where
  "stub_query tr coll v k flt =
     Returns \<lparr>q_ids = [map e_id (take (nat k) coll)],
              q_distances = Some [map (\<lambda>r. 0) (take (nat k) coll)],
              q_metadatas = Some [map e_metadata (take (nat k) coll)]\<rparr>"

definition stub_env :: env where
  "stub_env =
     \<lparr>mock_mode = False,
      float_sub = (\<lambda>x y. x - y),
      random_rowid = (\<lambda>tr. 1),
      randbelow = (\<lambda>tr n. 0),
      responses_parse = (\<lambda>tr content. Returns ''Cybersecurity''),
      embeddings_create = (\<lambda>tr text. Returns [1, 0]),
      utcnow = (\<lambda>tr. 0),
      commit_raises = (\<lambda>tr a. False),
      collection_add_raises = (\<lambda>tr r. False),
      collection_query = stub_query\<rparr>"

definition empty_state :: state where
  "empty_state = \<lparr>db = [], collection = [], trace = []\<rparr>"

definition zero_day :: raw_article where
  "zero_day =
     \<lparr>r_title = ''Zero-day in X'', r_url = ''https://e/1'', r_summary = ''critical flaw'',
      r_source = ''rss:test'', r_published_date = None\<rparr>"

definition stored_zero_day :: article where
  "stored_zero_day =
     \<lparr>a_id = 1, a_title = ''Zero-day in X'', a_url = ''https://e/1'',
      a_summary = Some ''critical flaw'', a_source = ''rss:test'',
      a_category = Some ''Cybersecurity'', a_published_date = None, a_created_at = 0\<rparr>"

definition zero_day_embedding :: emb_record where
  "zero_day_embedding =
     \<lparr>e_id = ''1'', e_embedding = [1, 0],
      e_metadata = \<lparr>m_title = ''Zero-day in X'', m_category = Some ''Cybersecurity'',
                    m_source = ''rss:test''\<rparr>,
      e_document = ''Zero-day in X. critical flaw''\<rparr>"

definition seeded_state :: state where
  "seeded_state = \<lparr>db = [stored_zero_day], collection = [zero_day_embedding], trace = []\<rparr>"

text \<open>Variants of the stub with one adapter or store out of order.\<close>

definition classifier_down :: env where
  "classifier_down = stub_env\<lparr>responses_parse := (\<lambda>tr content. Raises)\<rparr>"

definition embedder_down :: env where
  "embedder_down = stub_env\<lparr>embeddings_create := (\<lambda>tr text. Raises)\<rparr>"

definition database_down :: env where
  "database_down = stub_env\<lparr>commit_raises := (\<lambda>tr a. True)\<rparr>"

text \<open>
  The collection still holds the embedding of an article that was deleted from the table,
  which is empty again and will hand out the identifier 1 once more.
\<close>

definition stale_state :: state where
  "stale_state = \<lparr>db = [], collection = [zero_day_embedding], trace = []\<rparr>"

text \<open>The table holds the article, the collection holds nothing yet.\<close>

definition unsynced_state :: state where
  "unsynced_state = \<lparr>db = [stored_zero_day], collection = [], trace = []\<rparr>"

text \<open>
  An environment where the query embeds to a vector orthogonal to the stored one, and the
  index reports the stored article at their squared Euclidean distance, 2, the default
  metric of a collection. Then a state whose collection holds, before the article's
  embedding, one under an identifier that the table does not hold.
\<close>

definition far_query ::
  "event list \<Rightarrow> emb_record list \<Rightarrow> real list \<Rightarrow> int \<Rightarrow> string option \<Rightarrow> query_result outcome" where
  "far_query tr coll v k flt =
     Returns \<lparr>q_ids = [[''1'']], q_distances = Some [[2]],
              q_metadatas = Some [[e_metadata zero_day_embedding]]\<rparr>"

definition far_index :: env where
  "far_index =
     stub_env\<lparr>embeddings_create := (\<lambda>tr text. Returns [0, 1]), collection_query := far_query\<rparr>"


section \<open>Basic facts\<close>

subsection \<open>Decimal rendering is injective\<close>

lemma digit_cases:
  "d < 10 \<Longrightarrow>
   d = 0 \<or> d = 1 \<or> d = 2 \<or> d = 3 \<or> d = 4 \<or> d = 5 \<or> d = 6 \<or> d = 7 \<or> d = 8 \<or> d = (9::nat)"
  by arith

lemma digit_val_digit_char: "d < 10 \<Longrightarrow> digit_val (digit_char d) = d"
  using digit_cases [of d] by (auto simp: digit_val_def digit_char_def)

lemma digit_char_not_special:
  "d < 10 \<Longrightarrow> digit_char d \<noteq> CHR ''_'' \<and> digit_char d \<noteq> CHR ''-''"
  using digit_cases [of d] by (auto simp: digit_char_def)

lemma digits_value_snoc:
  "c \<noteq> CHR ''_'' \<Longrightarrow> digits_value (xs @ [c]) = 10 * digits_value xs + digit_val c"
  by (simp add: digits_value_def)

lemma digits_value_str_nat: "digits_value (str_nat n) = n"
proof (induction n rule: str_nat.induct)
  case (1 n)
  show ?case
  proof (cases "n < 10")
    case True
    then show ?thesis
      using digit_val_digit_char [of n] digit_char_not_special [of n]
      by (simp add: digits_value_def)
  next
    case False
    have m: "n mod 10 < 10" by simp
    have "digits_value (str_nat n) =
          10 * digits_value (str_nat (n div 10)) + digit_val (digit_char (n mod 10))"
      using False digit_char_not_special [OF m]
      by (subst str_nat.simps) (simp add: digits_value_snoc)
    also have "\<dots> = 10 * (n div 10) + n mod 10"
      using "1.IH" [OF False] digit_val_digit_char [OF m] by simp
    finally show ?thesis by simp
  qed
qed

lemma str_nat_inj: "str_nat m = str_nat n \<Longrightarrow> m = n"
  using digits_value_str_nat [of m] digits_value_str_nat [of n] by simp

lemma str_nat_hd: "\<exists>c cs. str_nat n = c # cs \<and> c \<noteq> CHR ''-''"
proof (induction n rule: str_nat.induct)
  case (1 n)
  show ?case
  proof (cases "n < 10")
    case True
    then show ?thesis using digit_char_not_special [of n] by simp
  next
    case False
    from "1.IH" [OF False] obtain c cs where "str_nat (n div 10) = c # cs" "c \<noteq> CHR ''-''"
      by blast
    with False show ?thesis by (subst str_nat.simps) simp
  qed
qed

lemma str_int_inj: "str_int i = str_int j \<Longrightarrow> i = j"
proof -
  assume eq: "str_int i = str_int j"
  obtain c cs where ci: "str_nat (nat i) = c # cs" "c \<noteq> CHR ''-''"
    using str_nat_hd by blast
  obtain d ds where dj: "str_nat (nat j) = d # ds" "d \<noteq> CHR ''-''"
    using str_nat_hd by blast
  show "i = j"
  proof (cases "i < 0")
    case True
    show ?thesis
    proof (cases "j < 0")
      case True
      with \<open>i < 0\<close> eq have "str_nat (nat (- i)) = str_nat (nat (- j))"
        by (simp add: str_int_def)
      then have "nat (- i) = nat (- j)" by (rule str_nat_inj)
      with True \<open>i < 0\<close> show ?thesis by simp
    next
      case False
      with \<open>i < 0\<close> eq dj show ?thesis by (simp add: str_int_def)
    qed
  next
    case False
    show ?thesis
    proof (cases "j < 0")
      case True
      with \<open>\<not> i < 0\<close> eq ci show ?thesis by (simp add: str_int_def)
    next
      case False
      with \<open>\<not> i < 0\<close> eq have "str_nat (nat i) = str_nat (nat j)"
        by (simp add: str_int_def)
      then have "nat i = nat j" by (rule str_nat_inj)
      with False \<open>\<not> i < 0\<close> show ?thesis by simp
    qed
  qed
qed

subsection \<open>The trace and the counters\<close>

lemma log_event_simps [simp]:
  "db (log_event e st) = db st"
  "collection (log_event e st) = collection st"
  "trace (log_event e st) = trace st @ [e]"
  by (simp_all add: log_event_def)

lemma embed_calls_simps [simp]:
  "embed_calls [] = 0"
  "embed_calls (tr @ tr') = embed_calls tr + embed_calls tr'"
  "embed_calls (EmbedCall x # tr) = embed_calls tr + 1"
  "embed_calls (ClassifyCall t s # tr) = embed_calls tr"
  "embed_calls (GetSession # tr) = embed_calls tr"
  "embed_calls (SyncComplete m k # tr) = embed_calls tr"
  by (simp_all add: embed_calls_def)

lemma classify_calls_simps [simp]:
  "classify_calls [] = 0"
  "classify_calls (tr @ tr') = classify_calls tr + classify_calls tr'"
  "classify_calls (ClassifyCall t s # tr) = classify_calls tr + 1"
  "classify_calls (EmbedCall x # tr) = classify_calls tr"
  "classify_calls (GetSession # tr) = classify_calls tr"
  "classify_calls (SyncComplete m k # tr) = classify_calls tr"
  by (simp_all add: classify_calls_def)

subsection \<open>The classifier\<close>

lemma classify_article_state:
  "snd (classify_article env st t s) = log_event (ClassifyCall t s) st"
  by (auto simp: classify_article_def Let_def split: outcome.splits)

lemma mock_classify_category: "mock_classify env st \<in> set news_categories"
  unfolding mock_classify_def by (rule nth_mem) (simp add: news_categories_def)

lemma fallback_category: "''Software & Development'' \<in> set news_categories"
  by (simp add: news_categories_def)

lemma classify_article_category:
  "fst (classify_article env st t s) \<in> set news_categories"
  using mock_classify_category fallback_category
  by (simp add: classify_article_def Let_def split: outcome.splits)

lemma classify_article_fallback:
  assumes "\<not> mock_mode env"
    and "\<forall>content c. responses_parse env (trace st @ [ClassifyCall t s]) content = Returns c
           \<longrightarrow> c \<notin> set news_categories"
  shows "classify_article env st t s =
         (''Software & Development'', log_event (ClassifyCall t s) st)"
  using assms by (auto simp: classify_article_def Let_def split: outcome.splits)

subsection \<open>The embedding insert\<close>

lemma create_embedding_state:
  "snd (create_embedding env st text) = log_event (EmbedCall text) st"
  by (simp add: create_embedding_def Let_def split: outcome.splits)

lemma add_article_db [simp]:
  "db (add_article env st aid t s c src) = db st"
  by (simp add: add_article_def Let_def create_embedding_def split: outcome.splits prod.splits)

lemma collection_get_empty:
  "(map e_id (collection_get [k] coll) \<noteq> []) = (k \<in> set (map e_id coll))"
  by (induction coll) (auto simp: collection_get_def)

lemma add_article_existing:
  "str_int aid \<in> set (map e_id (collection st)) \<Longrightarrow> add_article env st aid t s c src = st"
  using collection_get_empty [of "str_int aid" "collection st"]
  by (simp add: add_article_def Let_def)

lemma add_article_trace:
  "trace (add_article env st aid t s c src) =
     (if str_int aid \<in> set (map e_id (collection st)) then trace st
      else trace st @ [EmbedCall (t @ ''. '' @ s)])"
  using collection_get_empty [of "str_int aid" "collection st"]
  by (simp add: add_article_def Let_def create_embedding_def split: outcome.splits prod.splits)

lemma add_article_collection:
  "collection (add_article env st aid t s c src) = collection st \<or>
   (str_int aid \<notin> set (map e_id (collection st)) \<and>
    (\<exists>r. e_id r = str_int aid \<and>
         collection (add_article env st aid t s c src) = collection st @ [r]))"
  using collection_get_empty [of "str_int aid" "collection st"]
  by (simp add: add_article_def Let_def create_embedding_def collection_add_def
      split: outcome.splits prod.splits)

lemma add_article_fresh:
  assumes "str_int aid \<notin> set (map e_id (collection st))"
    and "embeddings_create env (trace st @ [EmbedCall (t @ ''. '' @ s)])
           (take 8000 (t @ ''. '' @ s)) = Returns v"
    and "v \<noteq> []"
    and "\<forall>r. \<not> collection_add_raises env (trace st @ [EmbedCall (t @ ''. '' @ s)]) r"
  shows "add_article env st aid t s c src =
         st\<lparr>collection := collection st @
               [\<lparr>e_id = str_int aid, e_embedding = v,
                 e_metadata = \<lparr>m_title = take 200 t, m_category = c, m_source = src\<rparr>,
                 e_document = take 1000 (t @ ''. '' @ s)\<rparr>],
            trace := trace st @ [EmbedCall (t @ ''. '' @ s)]\<rparr>"
  using assms collection_get_empty [of "str_int aid" "collection st"]
  by (simp add: add_article_def Let_def create_embedding_def collection_add_def log_event_def)

subsection \<open>The relational insert\<close>

lemma add_commit_duplicate:
  "r_url d \<in> set (map a_url (db st)) \<Longrightarrow> add_commit env st d c = Inl IntegrityError"
  by (simp add: add_commit_def Let_def)

lemma add_commit_fault:
  "\<forall>a. commit_raises env (trace st) a \<Longrightarrow> \<exists>e. add_commit env st d c = Inl e"
  by (simp add: add_commit_def Let_def)

lemma add_commit_Inr:
  assumes "add_commit env st d c = Inr (a, st2)"
  shows "a_id a = next_id env (trace st) (db st)" and "a_category a = Some c"
    and "a_url a = r_url d"
    and "a_title a = r_title d" and "a_summary a = Some (r_summary d)"
    and "a_source a = r_source d"
    and "st2 = st\<lparr>db := db st @ [a]\<rparr>" and "r_url d \<notin> set (map a_url (db st))"
  using assms by (auto simp: add_commit_def Let_def split: if_splits)

lemma add_commit_accepts:
  assumes "r_url d \<notin> set (map a_url (db st))" and "\<forall>a. \<not> commit_raises env (trace st) a"
  shows "\<exists>a st2. add_commit env st d c = Inr (a, st2)"
  using assms by (simp add: add_commit_def Let_def)

subsection \<open>One iteration of the ingestion loop\<close>

lemma save_one_rejected:
  assumes "add_commit env (log_event (ClassifyCall (r_title d) (r_summary d)) st) d
             (fst (classify_article env st (r_title d) (r_summary d))) = Inl e"
  shows "save_one env (n, st) d = (n, log_event (ClassifyCall (r_title d) (r_summary d)) st)"
proof -
  obtain c st1 where cl: "classify_article env st (r_title d) (r_summary d) = (c, st1)"
    by (cases "classify_article env st (r_title d) (r_summary d)")
  have st1: "st1 = log_event (ClassifyCall (r_title d) (r_summary d)) st"
    using classify_article_state [of env st "r_title d" "r_summary d"] cl by simp
  from assms cl st1 show ?thesis by (simp add: save_one_def)
qed

lemma save_one_stored:
  assumes "add_commit env (log_event (ClassifyCall (r_title d) (r_summary d)) st) d
             (fst (classify_article env st (r_title d) (r_summary d))) = Inr (a, st2)"
  shows "save_one env (n, st) d =
         (n + 1,
          add_article env st2 (a_id a) (r_title d) (r_summary d)
            (Some (fst (classify_article env st (r_title d) (r_summary d)))) (r_source d))"
proof -
  obtain c st1 where cl: "classify_article env st (r_title d) (r_summary d) = (c, st1)"
    by (cases "classify_article env st (r_title d) (r_summary d)")
  have st1: "st1 = log_event (ClassifyCall (r_title d) (r_summary d)) st"
    using classify_article_state [of env st "r_title d" "r_summary d"] cl by simp
  from assms cl st1 have fields:
    "a_title a = r_title d" "a_summary a = Some (r_summary d)" "a_source a = r_source d"
    using add_commit_Inr(4,5,6) [of env st1 d c a st2] by simp_all
  from assms cl st1 fields show ?thesis by (simp add: save_one_def or_empty_def)
qed

lemma save_one_db:
  "db (snd (save_one env (n, st) d)) = db st \<or>
   (\<exists>a. db (snd (save_one env (n, st) d)) = db st @ [a]
        \<and> a_category a = Some (fst (classify_article env st (r_title d) (r_summary d))))"
proof -
  let ?st1 = "log_event (ClassifyCall (r_title d) (r_summary d)) st"
  let ?c = "fst (classify_article env st (r_title d) (r_summary d))"
  show ?thesis
  proof (cases "add_commit env ?st1 d ?c")
    case (Inl e)
    then show ?thesis using save_one_rejected [of env d st e n] by simp
  next
    case (Inr p)
    obtain a st2 where p: "p = (a, st2)" by (cases p)
    from Inr p have ok: "add_commit env ?st1 d ?c = Inr (a, st2)" by simp
    have "db st2 = db st @ [a]" and "a_category a = Some ?c"
      using add_commit_Inr(7) [OF ok] add_commit_Inr(2) [OF ok] by simp_all
    then show ?thesis using save_one_stored [OF ok, of n] by simp
  qed
qed

text \<open>
  The counters of one iteration: the count grows exactly when a row is stored, the classifier
  is called once, and the embedder is called at most once, and only for a stored row.
\<close>

lemma save_one_trace:
  "trace (snd (save_one env (n, st) d)) = trace st @ [ClassifyCall (r_title d) (r_summary d)]
   \<or> (fst (save_one env (n, st) d) = n + 1
       \<and> trace (snd (save_one env (n, st) d)) =
           trace st @ [ClassifyCall (r_title d) (r_summary d),
                       EmbedCall (r_title d @ ''. '' @ r_summary d)])"
proof -
  let ?st1 = "log_event (ClassifyCall (r_title d) (r_summary d)) st"
  let ?c = "fst (classify_article env st (r_title d) (r_summary d))"
  show ?thesis
  proof (cases "add_commit env ?st1 d ?c")
    case (Inl e)
    then show ?thesis using save_one_rejected [of env d st e n] by simp
  next
    case (Inr p)
    obtain a st2 where p: "p = (a, st2)" by (cases p)
    from Inr p have ok: "add_commit env ?st1 d ?c = Inr (a, st2)" by simp
    have "trace st2 = trace st @ [ClassifyCall (r_title d) (r_summary d)]"
      using add_commit_Inr(7) [OF ok] by simp
    then show ?thesis
      using save_one_stored [OF ok, of n]
        add_article_trace [of env st2 "a_id a" "r_title d" "r_summary d" "Some ?c" "r_source d"]
      by simp
  qed
qed

lemma save_one_classify_calls:
  "classify_calls (trace (snd (save_one env (n, st) d))) = classify_calls (trace st) + 1"
  using save_one_trace [of env n st d] by auto

lemma save_one_embed_le:
  "embed_calls (trace (snd (save_one env (n, st) d))) + n
     \<le> embed_calls (trace st) + fst (save_one env (n, st) d)"
proof -
  have "n \<le> fst (save_one env (n, st) d)"
  proof -
    let ?st1 = "log_event (ClassifyCall (r_title d) (r_summary d)) st"
    let ?c = "fst (classify_article env st (r_title d) (r_summary d))"
    show ?thesis
    proof (cases "add_commit env ?st1 d ?c")
      case (Inl e)
      then show ?thesis using save_one_rejected [of env d st e n] by simp
    next
      case (Inr p)
      obtain a st2 where p: "p = (a, st2)" by (cases p)
      from Inr p have "add_commit env ?st1 d ?c = Inr (a, st2)" by simp
      from save_one_stored [OF this, of n] show ?thesis by simp
    qed
  qed
  then show ?thesis using save_one_trace [of env n st d] by auto
qed

lemma save_one_count:
  "fst (save_one env (n, st) d) + length (db st) = n + length (db (snd (save_one env (n, st) d)))"
proof -
  let ?st1 = "log_event (ClassifyCall (r_title d) (r_summary d)) st"
  let ?c = "fst (classify_article env st (r_title d) (r_summary d))"
  show ?thesis
  proof (cases "add_commit env ?st1 d ?c")
    case (Inl e)
    then show ?thesis using save_one_rejected [of env d st e n] by simp
  next
    case (Inr p)
    obtain a st2 where p: "p = (a, st2)" by (cases p)
    from Inr p have ok: "add_commit env ?st1 d ?c = Inr (a, st2)" by simp
    have "db st2 = db st @ [a]" using add_commit_Inr(7) [OF ok] by simp
    then show ?thesis using save_one_stored [OF ok, of n] by simp
  qed
qed

subsection \<open>The ingestion loop\<close>

lemma save_loop_append:
  "save_loop env (xs @ ys) acc = save_loop env ys (save_loop env xs acc)"
  by (induction xs arbitrary: acc) simp_all

lemma save_loop_db_new:
  assumes "\<And>st t s. P (fst (classify_article env st t s))"
  shows "\<exists>new. db (snd (save_loop env ds (n, st))) = db st @ new
       \<and> (\<forall>a \<in> set new. \<exists>c. P c \<and> a_category a = Some c)"
proof (induction ds arbitrary: n st)
  case Nil
  then show ?case by simp
next
  case (Cons d ds)
  obtain n1 st1 where s1: "save_one env (n, st) d = (n1, st1)"
    by (cases "save_one env (n, st) d")
  from Cons.IH [of n1 st1] obtain new where
    new: "db (snd (save_loop env ds (n1, st1))) = db st1 @ new"
         "\<forall>a \<in> set new. \<exists>c. P c \<and> a_category a = Some c"
    by blast
  from save_one_db [of env n st d] s1
  consider "db st1 = db st"
    | a where "db st1 = db st @ [a]"
        "a_category a = Some (fst (classify_article env st (r_title d) (r_summary d)))"
    by auto
  then show ?case
  proof cases
    case 1
    with new s1 show ?thesis by auto
  next
    case 2
    have "\<exists>c. P c \<and> a_category a = Some c"
      using 2(2) assms by blast
    with new 2(1) s1 show ?thesis
      by (intro exI [of _ "a # new"]) auto
  qed
qed

lemma save_loop_db_categories:
  "\<exists>new. db (snd (save_loop env ds (n, st))) = db st @ new
       \<and> (\<forall>a \<in> set new. \<exists>c \<in> set news_categories. a_category a = Some c)"
  using save_loop_db_new [of "\<lambda>c. c \<in> set news_categories" env ds n st]
    classify_article_category
  by (simp add: Bex_def)

lemma save_loop_count:
  "fst (save_loop env ds (n, st)) + length (db st) =
   n + length (db (snd (save_loop env ds (n, st))))"
proof (induction ds arbitrary: n st)
  case Nil
  then show ?case by simp
next
  case (Cons d ds)
  obtain n1 st1 where s1: "save_one env (n, st) d = (n1, st1)"
    by (cases "save_one env (n, st) d")
  from save_one_count [of env n st d] s1 have "n1 + length (db st) = n + length (db st1)"
    by simp
  with Cons.IH [of n1 st1] s1 show ?case by simp
qed

lemma save_loop_classify_calls:
  "classify_calls (trace (snd (save_loop env ds (n, st)))) = classify_calls (trace st) + length ds"
proof (induction ds arbitrary: n st)
  case Nil
  then show ?case by simp
next
  case (Cons d ds)
  obtain n1 st1 where s1: "save_one env (n, st) d = (n1, st1)"
    by (cases "save_one env (n, st) d")
  from save_one_classify_calls [of env n st d] s1
  have "classify_calls (trace st1) = classify_calls (trace st) + 1" by simp
  with Cons.IH [of n1 st1] s1 show ?case by simp
qed

lemma save_loop_embed_le:
  "embed_calls (trace (snd (save_loop env ds (n, st)))) + n
     \<le> embed_calls (trace st) + fst (save_loop env ds (n, st))"
proof (induction ds arbitrary: n st)
  case Nil
  then show ?case by simp
next
  case (Cons d ds)
  obtain n1 st1 where s1: "save_one env (n, st) d = (n1, st1)"
    by (cases "save_one env (n, st) d")
  from save_one_embed_le [of env n st d] s1
  have "embed_calls (trace st1) + n \<le> embed_calls (trace st) + n1" by simp
  with Cons.IH [of n1 st1] s1 show ?case by simp
qed

lemma save_loop_urls:
  "set (map a_url (db st)) \<subseteq> set (map a_url (db (snd (save_loop env ds (n, st)))))"
  using save_loop_db_categories [of env ds n st] by auto

subsection \<open>The stub environment at work\<close>

lemma stub_env_simps [simp]:
  "mock_mode stub_env = False"
  "float_sub stub_env x y = x - y"
  "responses_parse stub_env tr content = Returns ''Cybersecurity''"
  "embeddings_create stub_env tr text = Returns [1, 0]"
  "utcnow stub_env tr = 0"
  "commit_raises stub_env tr a = False"
  "collection_add_raises stub_env tr r = False"
  "collection_query stub_env = stub_query"
  by (simp_all add: stub_env_def)

lemma stub_classify:
  "\<not> mock_mode env \<Longrightarrow> \<forall>tr content. responses_parse env tr content = Returns ''Cybersecurity'' \<Longrightarrow>
   classify_article env st t s = (''Cybersecurity'', log_event (ClassifyCall t s) st)"
  by (simp add: classify_article_def Let_def news_categories_def)

lemma zero_day_commit:
  "\<forall>tr a. \<not> commit_raises env tr a \<Longrightarrow> \<forall>tr. utcnow env tr = 0 \<Longrightarrow>
   add_commit env \<lparr>db = [], collection = [], trace = tr\<rparr> zero_day ''Cybersecurity'' =
     Inr (stored_zero_day, \<lparr>db = [stored_zero_day], collection = [], trace = tr\<rparr>)"
  by (simp add: add_commit_def Let_def next_id_def zero_day_def stored_zero_day_def)

lemma str_int_1: "str_int 1 = ''1''"
  by (simp add: str_int_def digit_char_def)

lemma zero_day_ingested:
  "save_articles stub_env empty_state [zero_day] =
     (1, \<lparr>db = [stored_zero_day], collection = [zero_day_embedding],
          trace = [GetSession, ClassifyCall ''Zero-day in X'' ''critical flaw'',
                   EmbedCall ''Zero-day in X. critical flaw'']\<rparr>)"
proof -
  let ?s0 = "\<lparr>db = [], collection = [], trace = [GetSession]\<rparr>"
  let ?s1 = "\<lparr>db = [], collection = [],
              trace = [GetSession, ClassifyCall ''Zero-day in X'' ''critical flaw'']\<rparr>"
  let ?s2 = "\<lparr>db = [stored_zero_day], collection = [],
              trace = [GetSession, ClassifyCall ''Zero-day in X'' ''critical flaw'']\<rparr>"
  have t: "r_title zero_day = ''Zero-day in X''" "r_summary zero_day = ''critical flaw''"
    "r_source zero_day = ''rss:test''"
    by (simp_all add: zero_day_def)
  have c: "classify_article stub_env ?s0 (r_title zero_day) (r_summary zero_day) =
           (''Cybersecurity'', ?s1)"
    using stub_classify [of stub_env ?s0 "r_title zero_day" "r_summary zero_day"]
    by (simp add: t log_event_def)
  have l: "log_event (ClassifyCall (r_title zero_day) (r_summary zero_day)) ?s0 = ?s1"
    by (simp add: t log_event_def)
  have a: "add_commit stub_env ?s1 zero_day ''Cybersecurity'' = Inr (stored_zero_day, ?s2)"
    using zero_day_commit [of stub_env] by simp
  have i: "a_id stored_zero_day = 1" by (simp add: stored_zero_day_def)
  have e: "add_article stub_env ?s2 1 ''Zero-day in X'' ''critical flaw''
             (Some ''Cybersecurity'') ''rss:test'' =
           \<lparr>db = [stored_zero_day], collection = [zero_day_embedding],
            trace = [GetSession, ClassifyCall ''Zero-day in X'' ''critical flaw'',
                     EmbedCall ''Zero-day in X. critical flaw'']\<rparr>"
    using add_article_fresh [of 1 ?s2 stub_env "''Zero-day in X''" "''critical flaw''" "[1, 0]"
        "Some ''Cybersecurity''" "''rss:test''"]
    by (simp add: str_int_1 zero_day_embedding_def)
  have "save_one stub_env (0, ?s0) zero_day =
        (1, add_article stub_env ?s2 (a_id stored_zero_day) (r_title zero_day)
              (r_summary zero_day) (Some ''Cybersecurity'') (r_source zero_day))"
    using save_one_stored [of stub_env zero_day ?s0 stored_zero_day ?s2 0] c l a by simp
  then have "save_one stub_env (0, ?s0) zero_day =
        (1, \<lparr>db = [stored_zero_day], collection = [zero_day_embedding],
            trace = [GetSession, ClassifyCall ''Zero-day in X'' ''critical flaw'',
                     EmbedCall ''Zero-day in X. critical flaw'']\<rparr>)"
    by (simp only: i t e)
  then show ?thesis
    by (simp add: save_articles_def empty_state_def log_event_def)
qed

subsection \<open>Rejected and accepted inserts\<close>

lemma save_one_duplicate:
  assumes "r_url d \<in> set (map a_url (db st))"
  shows "save_one env (n, st) d = (n, log_event (ClassifyCall (r_title d) (r_summary d)) st)"
  using save_one_rejected [of env d st IntegrityError n] add_commit_duplicate [of d _ env] assms
  by simp

lemma save_one_commit_fault:
  assumes "\<forall>a. commit_raises env (trace st @ [ClassifyCall (r_title d) (r_summary d)]) a"
  shows "save_one env (n, st) d = (n, log_event (ClassifyCall (r_title d) (r_summary d)) st)"
proof -
  let ?st1 = "log_event (ClassifyCall (r_title d) (r_summary d)) st"
  from assms have "\<forall>a. commit_raises env (trace ?st1) a" by simp
  from add_commit_fault [OF this] obtain e where
    "add_commit env ?st1 d (fst (classify_article env st (r_title d) (r_summary d))) = Inl e"
    by blast
  then show ?thesis by (rule save_one_rejected)
qed

lemma save_one_accepted:
  assumes "r_url d \<notin> set (map a_url (db st))"
    and "\<forall>a. \<not> commit_raises env (trace st @ [ClassifyCall (r_title d) (r_summary d)]) a"
  shows "fst (save_one env (n, st) d) = n + 1"
    and "\<exists>a. db (snd (save_one env (n, st) d)) = db st @ [a] \<and> a_url a = r_url d
           \<and> a_category a = Some (fst (classify_article env st (r_title d) (r_summary d)))
           \<and> embed_calls (trace (snd (save_one env (n, st) d))) =
               embed_calls (trace st)
               + (if str_int (a_id a) \<in> set (map e_id (collection st)) then 0 else 1)"
proof -
  let ?st1 = "log_event (ClassifyCall (r_title d) (r_summary d)) st"
  let ?c = "fst (classify_article env st (r_title d) (r_summary d))"
  from assms have "r_url d \<notin> set (map a_url (db ?st1))"
    and "\<forall>a. \<not> commit_raises env (trace ?st1) a" by simp_all
  from add_commit_accepts [OF this] obtain a st2 where
    ok: "add_commit env ?st1 d ?c = Inr (a, st2)" by blast
  have st2: "db st2 = db st @ [a]" "collection st2 = collection st"
    "trace st2 = trace st @ [ClassifyCall (r_title d) (r_summary d)]"
    using add_commit_Inr(7) [OF ok] by simp_all
  let ?st3 = "add_article env st2 (a_id a) (r_title d) (r_summary d) (Some ?c) (r_source d)"
  have res: "save_one env (n, st) d = (n + 1, ?st3)"
    using save_one_stored [OF ok] .
  show "fst (save_one env (n, st) d) = n + 1" using res by simp
  have "embed_calls (trace ?st3) =
        embed_calls (trace st)
        + (if str_int (a_id a) \<in> set (map e_id (collection st)) then 0 else 1)"
    using add_article_trace [of env st2 "a_id a" "r_title d" "r_summary d" "Some ?c" "r_source d"]
      st2 by simp
  then show "\<exists>a. db (snd (save_one env (n, st) d)) = db st @ [a] \<and> a_url a = r_url d
           \<and> a_category a = Some ?c
           \<and> embed_calls (trace (snd (save_one env (n, st) d))) =
               embed_calls (trace st)
               + (if str_int (a_id a) \<in> set (map e_id (collection st)) then 0 else 1)"
    using res st2 add_commit_Inr(2,3) [OF ok] by auto
qed

lemma add_article_embed_fails:
  assumes "str_int aid \<notin> set (map e_id (collection st))"
    and "embeddings_create env (trace st @ [EmbedCall (t @ ''. '' @ s)])
           (take 8000 (t @ ''. '' @ s)) = Raises
         \<or> embeddings_create env (trace st @ [EmbedCall (t @ ''. '' @ s)])
           (take 8000 (t @ ''. '' @ s)) = Returns []"
  shows "add_article env st aid t s c src = log_event (EmbedCall (t @ ''. '' @ s)) st"
  using assms collection_get_empty [of "str_int aid" "collection st"]
  by (auto simp: add_article_def Let_def create_embedding_def)

lemma zero_day_fields:
  "r_title zero_day = ''Zero-day in X''" "r_summary zero_day = ''critical flaw''"
  "r_source zero_day = ''rss:test''" "r_url zero_day = ''https://e/1''"
  "a_url stored_zero_day = ''https://e/1''" "a_id stored_zero_day = 1"
  "a_title stored_zero_day = ''Zero-day in X''" "a_summary stored_zero_day = Some ''critical flaw''"
  "a_source stored_zero_day = ''rss:test''"
  "a_category stored_zero_day = Some ''Cybersecurity''"
  "e_id zero_day_embedding = ''1''"
  by (simp_all add: zero_day_def stored_zero_day_def zero_day_embedding_def)

lemma seeded_state_simps:
  "db seeded_state = [stored_zero_day]" "collection seeded_state = [zero_day_embedding]"
  "trace seeded_state = []"
  "db empty_state = []" "collection empty_state = []" "trace empty_state = []"
  by (simp_all add: seeded_state_def empty_state_def)

section \<open>Facts about the collection and the reconciler\<close>



lemma add_article_keeps:
  "k \<in> set (map e_id (collection st)) \<Longrightarrow>
   k \<in> set (map e_id (collection (add_article env st aid t s c src)))"
  using add_article_collection [of env st aid t s c src] by auto

lemma sync_loop_none_missing:
  "\<forall>a \<in> set rows. str_int (a_id a) \<in> set existing \<Longrightarrow>
   sync_loop env existing rows acc = acc"
  by (induction env existing rows acc rule: sync_loop.induct) simp_all

lemma sync_loop_all_missing:
  assumes "\<forall>tr text. \<exists>v. embeddings_create env tr text = Returns v \<and> v \<noteq> []"
    and "\<forall>tr r. \<not> collection_add_raises env tr r"
  shows "distinct (map a_id rows) \<Longrightarrow>
    \<forall>a \<in> set rows. str_int (a_id a) \<notin> set existing \<Longrightarrow>
    \<forall>a \<in> set rows. str_int (a_id a) \<notin> set (map e_id (collection st)) \<Longrightarrow>
    fst (sync_loop env existing rows (m, st)) = m + length rows
    \<and> db (snd (sync_loop env existing rows (m, st))) = db st
    \<and> map e_id (collection (snd (sync_loop env existing rows (m, st)))) =
        map e_id (collection st) @ map (\<lambda>a. str_int (a_id a)) rows
    \<and> embed_calls (trace (snd (sync_loop env existing rows (m, st)))) =
        embed_calls (trace st) + length rows"
proof (induction rows arbitrary: m st)
  case Nil
  then show ?case by simp
next
  case (Cons a rows)
  let ?text = "a_title a @ ''. '' @ or_empty (a_summary a)"
  let ?st' = "add_article env st (a_id a) (a_title a) (or_empty (a_summary a))
                (a_category a) (a_source a)"
  from assms(1) obtain v where
    v: "embeddings_create env (trace st @ [EmbedCall ?text]) (take 8000 ?text) = Returns v"
       "v \<noteq> []"
    by blast
  have fresh: "str_int (a_id a) \<notin> set (map e_id (collection st))"
    using Cons.prems(3) by simp
  have st': "db ?st' = db st"
    "map e_id (collection ?st') = map e_id (collection st) @ [str_int (a_id a)]"
    "trace ?st' = trace st @ [EmbedCall ?text]"
    using add_article_fresh [OF fresh v, of "a_category a" "a_source a"] assms(2)
    by simp_all
  have others: "\<forall>b \<in> set rows. str_int (a_id b) \<notin> set (map e_id (collection ?st'))"
  proof
    fix b assume b: "b \<in> set rows"
    then have "a_id b \<in> a_id ` set rows" by simp
    then have "a_id b \<noteq> a_id a" using Cons.prems(1) by auto
    then have "str_int (a_id b) \<noteq> str_int (a_id a)" using str_int_inj by blast
    moreover have "str_int (a_id b) \<notin> set (map e_id (collection st))"
      using Cons.prems(3) b by simp
    ultimately show "str_int (a_id b) \<notin> set (map e_id (collection ?st'))"
      using st'(2) by simp
  qed
  have d: "distinct (map a_id rows)" and e: "\<forall>b \<in> set rows. str_int (a_id b) \<notin> set existing"
    using Cons.prems(1,2) by simp_all
  have step: "sync_loop env existing (a # rows) (m, st) =
              sync_loop env existing rows (m + 1, ?st')"
    using Cons.prems(2) by simp
  from Cons.IH [OF d e others, of "m + 1"] st' show ?case
    unfolding step by simp
qed

lemma sync_returns_None: "fst (sync_missing_embeddings env st) = None"
  by (simp add: sync_missing_embeddings_def Let_def split: prod.splits)

lemma sync_state:
  "snd (sync_missing_embeddings env st) =
     log_event
       (SyncComplete (length (db st))
          (fst (sync_loop env
                 (if collection st \<noteq> [] then map e_id (collection st) else [])
                 (db st) (0, log_event GetSession st))))
       (snd (sync_loop env
              (if collection st \<noteq> [] then map e_id (collection st) else [])
              (db st) (0, log_event GetSession st)))"
  by (simp add: sync_missing_embeddings_def Let_def collection_count_def split: prod.splits)

section \<open>Facts about search\<close>

lemma search_embedding_fails:
  assumes "embeddings_create env (trace st @ [EmbedCall q]) (take 8000 q) = Raises
         \<or> embeddings_create env (trace st @ [EmbedCall q]) (take 8000 q) = Returns []"
  shows "search env st q c k = ([], log_event (EmbedCall q) st)"
  using assms by (auto simp: search_def create_embedding_def Let_def)



lemma build_matches_well_formed:
  assumes "q_distances res = Some [ds]" and "q_metadatas res = Some [ms]"
  shows "map py_int ids = map Some ns \<Longrightarrow> i + length ids \<le> length ds \<Longrightarrow>
         i + length ids \<le> length ms \<Longrightarrow>
         build_matches env res i ids =
           Some (map (\<lambda>(n, d, m). \<lparr>article_id = n, score = float_sub env 1 d,
                                      metadata = Some m\<rparr>)
                   (zip ns (zip (drop i ds) (drop i ms))))"
proof (induction ids arbitrary: i ns)
  case Nil
  then show ?case by simp
next
  case (Cons s rest)
  from Cons.prems(1) obtain n ns' where ns: "ns = n # ns'" "py_int s = Some n"
    "map py_int rest = map Some ns'"
    by (cases ns) auto
  from Cons.prems(2,3) have i: "i < length ds" "i < length ms" by simp_all
  have sc: "score_at env res i = Some (float_sub env 1 (ds ! i))"
    and md: "metadata_at res i = Some (Some (ms ! i))"
    using assms i by (simp_all add: score_at_def metadata_at_def)
  have ih: "build_matches env res (Suc i) rest =
           Some (map (\<lambda>(n, d, m). \<lparr>article_id = n, score = float_sub env 1 d,
                                      metadata = Some m\<rparr>)
                   (zip ns' (zip (drop (Suc i) ds) (drop (Suc i) ms))))"
    using Cons.prems(2,3) by (intro Cons.IH [OF ns(3)]) simp_all
  have dr: "drop i ds = ds ! i # drop (Suc i) ds" "drop i ms = ms ! i # drop (Suc i) ms"
    using i by (simp_all add: Cons_nth_drop_Suc)
  show ?case
    by (simp add: sc md ns ih dr)
qed

lemma search_well_formed:
  assumes "embeddings_create env (trace st @ [EmbedCall q]) (take 8000 q) = Returns v"
    and "v \<noteq> []"
    and "collection_query env (trace st @ [EmbedCall q]) (collection st) v k
           (if truthy c then c else None) =
         Returns \<lparr>q_ids = [ids], q_distances = Some [ds], q_metadatas = Some [ms]\<rparr>"
    and "length ds = length ids" and "length ms = length ids"
    and "map py_int ids = map Some ns"
  shows "search env st q c k =
         (map (\<lambda>(n, d, m). \<lparr>article_id = n, score = float_sub env 1 d, metadata = Some m\<rparr>)
            (zip ns (zip ds ms)),
          log_event (EmbedCall q) st)"
proof -
  let ?res = "\<lparr>q_ids = [ids], q_distances = Some [ds], q_metadatas = Some [ms]\<rparr>"
  have ce: "create_embedding env st q = (v, log_event (EmbedCall q) st)"
    using assms(1) by (simp add: create_embedding_def Let_def)
  have bm: "build_matches env ?res 0 ids =
            Some (map (\<lambda>(n, d, m). \<lparr>article_id = n, score = float_sub env 1 d,
                                      metadata = Some m\<rparr>)
                   (zip ns (zip (drop 0 ds) (drop 0 ms))))"
    using assms(4,5) by (intro build_matches_well_formed [OF _ _ assms(6)]) simp_all
  have len: "length ns = length ids" using assms(6) by (metis length_map)
  show ?thesis
  proof (cases "ids = []")
    case True
    with len ce assms(2,3) show ?thesis by (simp add: search_def)
  next
    case False
    with ce assms(2,3) bm show ?thesis by (simp add: search_def)
  qed
qed


lemma py_int_1: "py_int ''1'' = Some 1"
  by (simp add: py_int_def strip_def py_isspace_def digits_value_def digit_val_def is_digit_def)



lemma zero_day_ingested_embedder_down:
  "save_articles embedder_down empty_state [zero_day] =
     (1, \<lparr>db = [stored_zero_day], collection = [],
          trace = [GetSession, ClassifyCall ''Zero-day in X'' ''critical flaw'',
                   EmbedCall ''Zero-day in X. critical flaw'']\<rparr>)"
proof -
  let ?s0 = "\<lparr>db = [], collection = [], trace = [GetSession]\<rparr>"
  let ?s1 = "\<lparr>db = [], collection = [],
              trace = [GetSession, ClassifyCall ''Zero-day in X'' ''critical flaw'']\<rparr>"
  let ?s2 = "\<lparr>db = [stored_zero_day], collection = [],
              trace = [GetSession, ClassifyCall ''Zero-day in X'' ''critical flaw'']\<rparr>"
  have env: "\<not> mock_mode embedder_down"
    "\<forall>tr content. responses_parse embedder_down tr content = Returns ''Cybersecurity''"
    "\<forall>tr a. \<not> commit_raises embedder_down tr a" "\<forall>tr. utcnow embedder_down tr = 0"
    "\<forall>tr x. embeddings_create embedder_down tr x = Raises"
    by (simp_all add: embedder_down_def)
  have c: "classify_article embedder_down ?s0 (r_title zero_day) (r_summary zero_day) =
           (''Cybersecurity'', ?s1)"
    using stub_classify [OF env(1,2), of ?s0 "r_title zero_day" "r_summary zero_day"]
    by (simp add: zero_day_fields log_event_def)
  have l: "log_event (ClassifyCall (r_title zero_day) (r_summary zero_day)) ?s0 = ?s1"
    by (simp add: zero_day_fields log_event_def)
  have a: "add_commit embedder_down ?s1 zero_day ''Cybersecurity'' = Inr (stored_zero_day, ?s2)"
    using zero_day_commit [OF env(3,4)] by simp
  have e: "add_article embedder_down ?s2 1 ''Zero-day in X'' ''critical flaw''
             (Some ''Cybersecurity'') ''rss:test'' =
           log_event (EmbedCall ''Zero-day in X. critical flaw'') ?s2"
    using add_article_embed_fails [of 1 ?s2 embedder_down "''Zero-day in X''" "''critical flaw''"
        "Some ''Cybersecurity''" "''rss:test''"] env(5)
    by (simp add: str_int_1)
  have "save_one embedder_down (0, ?s0) zero_day =
        (1, add_article embedder_down ?s2 (a_id stored_zero_day) (r_title zero_day)
              (r_summary zero_day) (Some ''Cybersecurity'') (r_source zero_day))"
    using save_one_stored [of embedder_down zero_day ?s0 stored_zero_day ?s2 0] c l a by simp
  then have "save_one embedder_down (0, ?s0) zero_day =
        (1, log_event (EmbedCall ''Zero-day in X. critical flaw'') ?s2)"
    by (simp only: zero_day_fields e)
  then show ?thesis
    by (simp add: save_articles_def empty_state_def log_event_def)
qed

section \<open>The claims\<close>

text \<open>
  Claim C1, as amended. An article whose URL is already in the table is rejected by the
  insert: the iteration leaves the count, the table and the collection as they were and
  calls the embedder not at all, but it has called the classifier once, since
  \<open>classify_article\<close> runs before the insert is attempted. In a batch, the loop goes on
  after such an article with the count and the stores it had before it. Within one batch
  every article offered, duplicate or not, gets exactly one classifier call, and the embedder
  calls are at most as many as the articles that the batch stores. The claim as stated fails
  twice over: a duplicate is classified again, and no bound holds across runs, since an
  article stored while the embedder fails gets another embedder call from the reconciler.
\<close>

theorem duplicate_url_skipped:
  "(r_url d \<in> set (map a_url (db st)) \<longrightarrow>
      save_one env (n, st) d =
        (n, st\<lparr>trace := trace st @ [ClassifyCall (r_title d) (r_summary d)]\<rparr>)
      \<and> save_articles env st (xs @ d # ys) =
          save_loop env ys
            (case save_loop env xs (0, log_event GetSession st) of
               (n1, s1) \<Rightarrow>
                 (n1, s1\<lparr>trace := trace s1 @ [ClassifyCall (r_title d) (r_summary d)]\<rparr>)))
   \<and> classify_calls (trace (snd (save_articles env st ds))) =
       classify_calls (trace st) + length ds
   \<and> embed_calls (trace (snd (save_articles env st ds))) \<le>
       embed_calls (trace st) + fst (save_articles env st ds)"
proof (intro conjI impI)
  assume dup: "r_url d \<in> set (map a_url (db st))"
  obtain n1 s1 where x: "save_loop env xs (0, log_event GetSession st) = (n1, s1)"
    by (cases "save_loop env xs (0, log_event GetSession st)")
  have "r_url d \<in> set (map a_url (db s1))"
    using save_loop_urls [of "log_event GetSession st" env xs 0] dup x by auto
  then have "save_one env (n1, s1) d = (n1, log_event (ClassifyCall (r_title d) (r_summary d)) s1)"
    by (rule save_one_duplicate)
  then have "save_articles env st (xs @ d # ys) =
    save_loop env ys (n1, log_event (ClassifyCall (r_title d) (r_summary d)) s1)"
    using x by (simp add: save_articles_def save_loop_append)
  then show "save_articles env st (xs @ d # ys) =
          save_loop env ys
            (case save_loop env xs (0, log_event GetSession st) of
               (n1, s1) \<Rightarrow>
                 (n1, s1\<lparr>trace := trace s1 @ [ClassifyCall (r_title d) (r_summary d)]\<rparr>))"
    using x by (simp add: log_event_def)
  show "save_one env (n, st) d =
        (n, st\<lparr>trace := trace st @ [ClassifyCall (r_title d) (r_summary d)]\<rparr>)"
    using save_one_duplicate [OF dup, of env n] by (simp add: log_event_def)
next
  show "classify_calls (trace (snd (save_articles env st ds))) =
        classify_calls (trace st) + length ds"
    using save_loop_classify_calls [of env ds 0 "log_event GetSession st"]
    by (simp add: save_articles_def)
next
  show "embed_calls (trace (snd (save_articles env st ds))) \<le>
        embed_calls (trace st) + fst (save_articles env st ds)"
    using save_loop_embed_le [of env ds 0 "log_event GetSession st"]
    by (simp add: save_articles_def)
qed

theorem duplicate_url_skipped_witness:
  "r_url zero_day \<in> set (map a_url (db seeded_state))
   \<and> save_one stub_env (0, seeded_state) zero_day =
       (0, seeded_state\<lparr>trace := [ClassifyCall ''Zero-day in X'' ''critical flaw'']\<rparr>)"
proof -
  have h: "r_url zero_day \<in> set (map a_url (db seeded_state))"
    by (simp add: zero_day_fields seeded_state_simps)
  from mp [OF conjunct1 [OF duplicate_url_skipped [of zero_day seeded_state stub_env 0 "[]" "[]"
        "[]"]] h] h
  show ?thesis
    by (simp add: zero_day_fields seeded_state_simps)
qed

theorem duplicate_url_classified_counterexample:
  "r_url zero_day \<in> set (map a_url (db seeded_state))
   \<and> classify_calls (trace (snd (save_articles stub_env seeded_state [zero_day]))) =
       classify_calls (trace seeded_state) + 1
   \<and> db (snd (save_articles embedder_down empty_state [zero_day])) = [stored_zero_day]
   \<and> embed_calls
       (trace (snd (sync_missing_embeddings embedder_down
                     (snd (save_articles embedder_down empty_state [zero_day]))))) = 2"
proof -
  have h: "r_url zero_day \<in> set (map a_url (db (log_event GetSession seeded_state)))"
    by (simp add: zero_day_fields seeded_state_simps)
  from save_one_duplicate [OF h, of stub_env 0] h
  have first: "r_url zero_day \<in> set (map a_url (db seeded_state))
   \<and> classify_calls (trace (snd (save_articles stub_env seeded_state [zero_day]))) =
       classify_calls (trace seeded_state) + 1"
    by (simp add: save_articles_def seeded_state_simps)
  let ?s = "\<lparr>db = [stored_zero_day], collection = [],
             trace = [GetSession, ClassifyCall ''Zero-day in X'' ''critical flaw'',
                      EmbedCall ''Zero-day in X. critical flaw'']\<rparr>"
  have run: "save_articles embedder_down empty_state [zero_day] = (1, ?s)"
    by (rule zero_day_ingested_embedder_down)
  let ?t = "log_event GetSession ?s"
  have down: "embeddings_create embedder_down tr x = Raises" for tr x
    by (simp add: embedder_down_def)
  have again: "add_article embedder_down ?t 1 ''Zero-day in X'' ''critical flaw''
                 (Some ''Cybersecurity'') ''rss:test'' =
               log_event (EmbedCall (''Zero-day in X'' @ ''. '' @ ''critical flaw'')) ?t"
    by (rule add_article_embed_fails) (simp_all add: down)
  have loop: "sync_loop embedder_down [] [stored_zero_day] (0, ?t) =
              (1, log_event (EmbedCall (''Zero-day in X'' @ ''. '' @ ''critical flaw'')) ?t)"
    by (simp add: zero_day_fields or_empty_def again)
  have c: "(if collection ?s \<noteq> [] then map e_id (collection ?s) else []) = []"
    "db ?s = [stored_zero_day]"
    by simp_all
  have "snd (sync_missing_embeddings embedder_down ?s) =
        log_event (SyncComplete 1 1)
          (log_event (EmbedCall (''Zero-day in X'' @ ''. '' @ ''critical flaw'')) ?t)"
    unfolding sync_state c loop by simp
  then have "embed_calls (trace (snd (sync_missing_embeddings embedder_down ?s))) = 2"
    by simp
  with first run show ?thesis by simp
qed

text \<open>
  Claim C2, as amended. Let the table hold N articles with distinct identifiers and the
  collection none, let the embedder return a non-empty vector for every text and let the
  collection accept every write. Then one call of \<open>sync_missing_embeddings\<close> leaves exactly
  one embedding per article, N in all, calls the embedder N times and logs N as recomputed;
  a call right after it adds nothing, calls the embedder not at all and logs 0. Either call
  returns \<open>None\<close>: the function has no return value, the count goes to the log only. The
  claim as stated, with N and 0 as return values, fails.
\<close>

theorem sync_missing_embeddings_converges:
  assumes "distinct (map a_id (db st))"
    and "collection st = []"
    and "\<forall>tr text. \<exists>v. embeddings_create env tr text = Returns v \<and> v \<noteq> []"
    and "\<forall>tr r. \<not> collection_add_raises env tr r"
  shows "fst (sync_missing_embeddings env st) = None
    \<and> db (snd (sync_missing_embeddings env st)) = db st
    \<and> map e_id (collection (snd (sync_missing_embeddings env st))) =
        map (\<lambda>a. str_int (a_id a)) (db st)
    \<and> embed_calls (trace (snd (sync_missing_embeddings env st))) =
        embed_calls (trace st) + length (db st)
    \<and> last (trace (snd (sync_missing_embeddings env st))) =
        SyncComplete (length (db st)) (length (db st))
    \<and> fst (sync_missing_embeddings env (snd (sync_missing_embeddings env st))) = None
    \<and> collection (snd (sync_missing_embeddings env (snd (sync_missing_embeddings env st)))) =
        collection (snd (sync_missing_embeddings env st))
    \<and> embed_calls
        (trace (snd (sync_missing_embeddings env (snd (sync_missing_embeddings env st))))) =
        embed_calls (trace (snd (sync_missing_embeddings env st)))
    \<and> last (trace (snd (sync_missing_embeddings env (snd (sync_missing_embeddings env st))))) =
        SyncComplete (length (db st)) 0"
proof -
  let ?s0 = "log_event GetSession st"
  let ?l1 = "sync_loop env [] (db st) (0, ?s0)"
  let ?st1 = "log_event (SyncComplete (length (db st)) (fst ?l1)) (snd ?l1)"
  have st1: "snd (sync_missing_embeddings env st) = ?st1"
    using sync_state [of env st] assms(2) by simp
  have loop1: "fst ?l1 = 0 + length (db st) \<and> db (snd ?l1) = db ?s0
    \<and> map e_id (collection (snd ?l1)) =
        map e_id (collection ?s0) @ map (\<lambda>a. str_int (a_id a)) (db st)
    \<and> embed_calls (trace (snd ?l1)) = embed_calls (trace ?s0) + length (db st)"
    using assms(1,2) by (intro sync_loop_all_missing [OF assms(3,4)]) simp_all
  then have first: "db ?st1 = db st"
    "map e_id (collection ?st1) = map (\<lambda>a. str_int (a_id a)) (db st)"
    "embed_calls (trace ?st1) = embed_calls (trace st) + length (db st)"
    "last (trace ?st1) = SyncComplete (length (db st)) (length (db st))"
    using assms(2) by simp_all
  let ?ex = "if collection ?st1 \<noteq> [] then map e_id (collection ?st1) else []"
  let ?t0 = "log_event GetSession ?st1"
  let ?l2 = "sync_loop env ?ex (db ?st1) (0, ?t0)"
  have "\<forall>a \<in> set (db ?st1). str_int (a_id a) \<in> set ?ex"
  proof (cases "collection ?st1 = []")
    case True
    then have "map (\<lambda>a. str_int (a_id a)) (db st) = []" using first(2) by simp
    then have "db st = []" by simp
    then show ?thesis using first(1) by simp
  next
    case False
    then have "set ?ex = set (map (\<lambda>a. str_int (a_id a)) (db st))"
      using first(2) by simp
    then show ?thesis using first(1) by simp
  qed
  then have loop2: "?l2 = (0, ?t0)" by (rule sync_loop_none_missing)
  let ?st2 = "log_event (SyncComplete (length (db ?st1)) (fst ?l2)) (snd ?l2)"
  have st2: "snd (sync_missing_embeddings env ?st1) = ?st2"
    using sync_state [of env ?st1] by simp
  have second: "collection ?st2 = collection ?st1"
    "embed_calls (trace ?st2) = embed_calls (trace ?st1)"
    "last (trace ?st2) = SyncComplete (length (db st)) 0"
    unfolding loop2 using first(1) by simp_all
  show ?thesis
    unfolding st1 st2 using first second sync_returns_None by simp
qed

theorem sync_missing_embeddings_converges_witness:
  "map e_id (collection (snd (sync_missing_embeddings stub_env unsynced_state))) = [''1'']
   \<and> last (trace (snd (sync_missing_embeddings stub_env unsynced_state))) = SyncComplete 1 1
   \<and> last (trace (snd (sync_missing_embeddings stub_env
                        (snd (sync_missing_embeddings stub_env unsynced_state))))) =
       SyncComplete 1 0"
proof -
  have h: "distinct (map a_id (db unsynced_state))" "collection unsynced_state = []"
    "\<forall>tr text. \<exists>v. embeddings_create stub_env tr text = Returns v \<and> v \<noteq> []"
    "\<forall>tr r. \<not> collection_add_raises stub_env tr r"
    by (simp_all add: unsynced_state_def)
  have d: "db unsynced_state = [stored_zero_day]" by (simp add: unsynced_state_def)
  from sync_missing_embeddings_converges [OF h] show ?thesis
    by (simp add: d zero_day_fields str_int_1)
qed

theorem sync_returns_nothing_counterexample:
  "length (db unsynced_state) = 1 \<and> collection unsynced_state = []
   \<and> fst (sync_missing_embeddings stub_env unsynced_state) \<noteq> Some 1"
  by (simp add: sync_returns_None unsynced_state_def)

text \<open>
  Claim C3. The claim puts every score between 0 and 1, 1 for identical vectors, and so does
  the comment of \<open>search\<close> on the score it computes (1 = identical, 0 = unrelated). The
  code returns one minus the distance as the index reports it, unclamped, and the collection
  is created with the default metric, whose distances go beyond 1: for a query that embeds to
  a vector orthogonal to the stored one the distance is 2, and \<open>search\<close> returns the score
  -1, below the scale. The subtraction is exact there, as floats too.
\<close>

theorem search_score_below_scale:
  "map article_id (fst (search far_index seeded_state ''zero day'' None 1)) = [1]
   \<and> map score (fst (search far_index seeded_state ''zero day'' None 1)) = [- 1]"
proof -
  have e: "embeddings_create far_index (trace seeded_state @ [EmbedCall ''zero day''])
             (take 8000 ''zero day'') = Returns [0, 1]"
    and v: "[0, 1 :: real] \<noteq> []"
    and i: "collection_query far_index (trace seeded_state @ [EmbedCall ''zero day''])
              (collection seeded_state) [0, 1] 1 (if truthy None then None else None) =
            Returns \<lparr>q_ids = [[''1'']], q_distances = Some [[2]],
                     q_metadatas = Some [[e_metadata zero_day_embedding]]\<rparr>"
    and l: "length [2 :: real] = length [''1'']"
      "length [e_metadata zero_day_embedding] = length [''1'']"
    and p: "map py_int [''1''] = map Some [1]"
    by (simp_all add: far_index_def far_query_def py_int_1)
  have f: "float_sub far_index 1 2 = - 1"
    by (simp add: far_index_def)
  from search_well_formed [OF e v i l p] f show ?thesis by simp
qed




text \<open>
  Claim C5, as amended. A prompt or a category is absent when it is \<open>None\<close> or the empty
  string. \<open>search_news\<close> rejects a request with status 400 exactly when prompt and category
  are both absent, or when the category is present and not one of \<open>news_categories\<close>; an
  empty category is no category and is not checked. A rejected request leaves the state,
  trace included, as it was: no session is opened and no adapter is called. No other request
  gets status 400. The claim as stated, with every category outside the enumeration
  rejected, fails for the empty category.
\<close>

theorem search_news_validation:
  "(if (\<not> truthy (rq_prompt r) \<and> \<not> truthy (rq_category r))
       \<or> (truthy (rq_category r) \<and> or_empty (rq_category r) \<notin> set news_categories)
    then (\<exists>detail. search_news env st r = (Inl (HTTPException 400 detail), st))
    else (\<forall>detail. fst (search_news env st r) \<noteq> Inl (HTTPException 400 detail)))"
proof (cases "\<not> truthy (rq_prompt r) \<and> \<not> truthy (rq_category r)")
  case True
  then have "\<exists>detail. search_news env st r = (Inl (HTTPException 400 detail), st)"
    by (simp add: search_news_def)
  with True show ?thesis by simp
next
  case present: False
  show ?thesis
  proof (cases "truthy (rq_category r) \<and> or_empty (rq_category r) \<notin> set news_categories")
    case True
    with present have "\<exists>detail. search_news env st r = (Inl (HTTPException 400 detail), st)"
      by (simp add: search_news_def)
    with True show ?thesis by simp
  next
    case False
    with present have "\<forall>detail. fst (search_news env st r) \<noteq> Inl (HTTPException 400 detail)"
      by (simp add: search_news_def Let_def split: prod.splits outcome.splits)
    with present False show ?thesis by auto
  qed
qed

theorem search_news_validation_witness:
  "(\<exists>detail. search_news stub_env empty_state
               \<lparr>rq_prompt = None, rq_category = None, rq_limit = 10\<rparr> =
             (Inl (HTTPException 400 detail), empty_state))
   \<and> (\<exists>detail. search_news stub_env empty_state
               \<lparr>rq_prompt = Some ''zero day'', rq_category = Some ''Sports'', rq_limit = 10\<rparr> =
             (Inl (HTTPException 400 detail), empty_state))
   \<and> fst (search_news stub_env empty_state
             \<lparr>rq_prompt = None, rq_category = Some ''Cybersecurity'', rq_limit = 10\<rparr>) \<noteq>
       Inl (HTTPException 400 ''Invalid category'')
   \<and> fst (search_news stub_env empty_state
             \<lparr>rq_prompt = None, rq_category = Some ''Cybersecurity'', rq_limit = 10\<rparr>) =
       Inr \<lparr>rs_count = 0, rs_articles = [], rs_search_type = ''category''\<rparr>"
proof -
  have sports: "''Sports'' \<notin> set news_categories"
    and cyber: "''Cybersecurity'' \<in> set news_categories"
    by (simp_all add: news_categories_def)
  have answer: "fst (search_news stub_env empty_state
             \<lparr>rq_prompt = None, rq_category = Some ''Cybersecurity'', rq_limit = 10\<rparr>) =
       Inr \<lparr>rs_count = 0, rs_articles = [], rs_search_type = ''category''\<rparr>"
    using cyber
    by (simp add: search_news_def truthy_def or_empty_def Let_def sql_limit_def
        seeded_state_simps)
  show ?thesis
    using search_news_validation [of "\<lparr>rq_prompt = None, rq_category = None, rq_limit = 10\<rparr>"
            stub_env empty_state]
      search_news_validation [of "\<lparr>rq_prompt = Some ''zero day'', rq_category = Some ''Sports'',
            rq_limit = 10\<rparr>" stub_env empty_state]
      search_news_validation [of "\<lparr>rq_prompt = None, rq_category = Some ''Cybersecurity'',
            rq_limit = 10\<rparr>" stub_env empty_state]
      sports cyber answer
    by (simp add: truthy_def or_empty_def)
qed

theorem empty_category_accepted_counterexample:
  "'''' \<notin> set news_categories
   \<and> fst (search_news stub_env empty_state
           \<lparr>rq_prompt = Some ''x'', rq_category = Some '''', rq_limit = 10\<rparr>) =
       Inr \<lparr>rs_count = 0, rs_articles = [], rs_search_type = ''semantic''\<rparr>"
proof -
  have out: "'''' \<notin> set news_categories"
    by (simp add: news_categories_def)
  have q: "stub_query tr [] v 10 flt =
           Returns \<lparr>q_ids = [[]], q_distances = Some [[]], q_metadatas = Some [[]]\<rparr>" for tr v flt
    by (simp add: stub_query_def)
  have s: "search stub_env (log_event GetSession empty_state) ''x'' (Some '''') 10 =
           ([], log_event (EmbedCall ''x'') (log_event GetSession empty_state))"
    by (simp add: search_def create_embedding_def Let_def q seeded_state_simps)
  have "fst (search_news stub_env empty_state
           \<lparr>rq_prompt = Some ''x'', rq_category = Some '''', rq_limit = 10\<rparr>) =
       Inr \<lparr>rs_count = 0, rs_articles = [], rs_search_type = ''semantic''\<rparr>"
    by (simp add: search_news_def truthy_def or_empty_def Let_def s map_filter_simps)
  with out show ?thesis by simp
qed

text \<open>
  Claim C6, as amended. Outside mock mode, when the request to the model raises or yields a
  value that is not in \<open>news_categories\<close>, an article that is ingested (its URL is new and
  the commit goes through) is stored with the category \<open>Software & Development\<close> and is
  counted. The embedder is then called exactly once for it, unless the collection already
  holds an embedding under the identifier that the row is given, in which case it is not
  called: \<open>add_article\<close> returns at the presence check. With a classifier that fails on
  every request, every row that a batch adds has the fallback category. The claim as stated,
  with exactly one embedder call for every such article, fails when an embedding was left
  behind under an identifier that the table hands out again.
\<close>

theorem classifier_failure_falls_back:
  "(\<not> mock_mode env
     \<and> (\<forall>content c. responses_parse env (trace st @ [ClassifyCall (r_title d) (r_summary d)])
                       content = Returns c \<longrightarrow> c \<notin> set news_categories)
     \<and> r_url d \<notin> set (map a_url (db st))
     \<and> (\<forall>a. \<not> commit_raises env (trace st @ [ClassifyCall (r_title d) (r_summary d)]) a)
    \<longrightarrow> fst (save_one env (n, st) d) = n + 1
       \<and> (\<exists>a. db (snd (save_one env (n, st) d)) = db st @ [a] \<and> a_url a = r_url d
              \<and> a_category a = Some ''Software & Development''
              \<and> embed_calls (trace (snd (save_one env (n, st) d))) =
                  embed_calls (trace st)
                  + (if str_int (a_id a) \<in> set (map e_id (collection st)) then 0 else 1)))
   \<and> (\<not> mock_mode env
     \<and> (\<forall>tr content c. responses_parse env tr content = Returns c \<longrightarrow> c \<notin> set news_categories)
    \<longrightarrow> (\<exists>new. db (snd (save_articles env st ds)) = db st @ new
          \<and> (\<forall>a \<in> set new. a_category a = Some ''Software & Development'')
          \<and> fst (save_articles env st ds) = length new))"
proof (intro conjI impI)
  assume h: "\<not> mock_mode env
     \<and> (\<forall>content c. responses_parse env (trace st @ [ClassifyCall (r_title d) (r_summary d)])
                       content = Returns c \<longrightarrow> c \<notin> set news_categories)
     \<and> r_url d \<notin> set (map a_url (db st))
     \<and> (\<forall>a. \<not> commit_raises env (trace st @ [ClassifyCall (r_title d) (r_summary d)]) a)"
  then have fb: "fst (classify_article env st (r_title d) (r_summary d)) =
                 ''Software & Development''"
    using classify_article_fallback [of env st "r_title d" "r_summary d"] by simp
  from h have acc: "r_url d \<notin> set (map a_url (db st))"
    "\<forall>a. \<not> commit_raises env (trace st @ [ClassifyCall (r_title d) (r_summary d)]) a"
    by simp_all
  show "fst (save_one env (n, st) d) = n + 1"
    using save_one_accepted(1) [OF acc] .
  show "\<exists>a. db (snd (save_one env (n, st) d)) = db st @ [a] \<and> a_url a = r_url d
              \<and> a_category a = Some ''Software & Development''
              \<and> embed_calls (trace (snd (save_one env (n, st) d))) =
                  embed_calls (trace st)
                  + (if str_int (a_id a) \<in> set (map e_id (collection st)) then 0 else 1)"
    using save_one_accepted(2) [OF acc, of n] fb by simp
next
  assume h: "\<not> mock_mode env
     \<and> (\<forall>tr content c. responses_parse env tr content = Returns c \<longrightarrow> c \<notin> set news_categories)"
  let ?s0 = "log_event GetSession st"
  have fb: "\<And>st t s. fst (classify_article env st t s) = ''Software & Development''"
    using h classify_article_fallback [of env] by simp
  from save_loop_db_new [of "\<lambda>c. c = ''Software & Development''" env ds 0 ?s0, OF fb]
  obtain new where new: "db (snd (save_loop env ds (0, ?s0))) = db st @ new"
    "\<forall>a \<in> set new. a_category a = Some ''Software & Development''"
    by auto
  have cnt: "fst (save_loop env ds (0, ?s0)) = length new"
    using save_loop_count [of env ds 0 ?s0] new(1) by simp
  with new show "\<exists>new. db (snd (save_articles env st ds)) = db st @ new
          \<and> (\<forall>a \<in> set new. a_category a = Some ''Software & Development'')
          \<and> fst (save_articles env st ds) = length new"
    by (auto simp: save_articles_def)
qed

theorem classifier_failure_falls_back_witness:
  "fst (save_articles classifier_down empty_state [zero_day]) = 1
   \<and> map a_category (db (snd (save_articles classifier_down empty_state [zero_day]))) =
       [Some ''Software & Development'']
   \<and> embed_calls (trace (snd (save_articles classifier_down empty_state [zero_day]))) = 1"
proof -
  let ?s0 = "log_event GetSession empty_state"
  have a: "\<not> mock_mode classifier_down
     \<and> (\<forall>content c. responses_parse classifier_down
            (trace ?s0 @ [ClassifyCall (r_title zero_day) (r_summary zero_day)]) content = Returns c
          \<longrightarrow> c \<notin> set news_categories)
     \<and> r_url zero_day \<notin> set (map a_url (db ?s0))
     \<and> (\<forall>a. \<not> commit_raises classifier_down
            (trace ?s0 @ [ClassifyCall (r_title zero_day) (r_summary zero_day)]) a)"
    by (simp add: classifier_down_def seeded_state_simps)
  have b: "\<not> mock_mode classifier_down
     \<and> (\<forall>tr content c. responses_parse classifier_down tr content = Returns c
          \<longrightarrow> c \<notin> set news_categories)"
    by (simp add: classifier_down_def)
  have run: "save_articles classifier_down empty_state [zero_day] =
             save_one classifier_down (0, ?s0) zero_day"
    by (simp add: save_articles_def)
  note first = mp [OF conjunct1 [OF classifier_failure_falls_back
                      [of classifier_down ?s0 zero_day 0 "[]"]] a]
  note batch = mp [OF conjunct2 [OF classifier_failure_falls_back
                      [of classifier_down empty_state zero_day 0 "[zero_day]"]] b]
  from first have one: "fst (save_one classifier_down (0, ?s0) zero_day) = 1"
    and row: "\<exists>a. db (snd (save_one classifier_down (0, ?s0) zero_day)) = [a]
                \<and> a_category a = Some ''Software & Development''
                \<and> embed_calls (trace (snd (save_one classifier_down (0, ?s0) zero_day))) = 1"
    by (auto simp: seeded_state_simps)
  from batch obtain new where
    "db (snd (save_articles classifier_down empty_state [zero_day])) = db empty_state @ new"
    "\<forall>a \<in> set new. a_category a = Some ''Software & Development''"
    "fst (save_articles classifier_down empty_state [zero_day]) = length new"
    by blast
  with one run have "length new = 1" by simp
  from row run have "map a_category (db (snd (save_articles classifier_down empty_state [zero_day]))) =
       [Some ''Software & Development'']
     \<and> embed_calls (trace (snd (save_articles classifier_down empty_state [zero_day]))) = 1"
    by auto
  with one run show ?thesis by simp
qed

theorem stale_embedding_skips_embedder_counterexample:
  "fst (save_articles classifier_down stale_state [zero_day]) = 1
   \<and> map a_id (db (snd (save_articles classifier_down stale_state [zero_day]))) = [1]
   \<and> map a_category (db (snd (save_articles classifier_down stale_state [zero_day]))) =
       [Some ''Software & Development'']
   \<and> embed_calls (trace (snd (save_articles classifier_down stale_state [zero_day]))) = 0"
proof -
  let ?s0 = "\<lparr>db = [], collection = [zero_day_embedding], trace = [GetSession]\<rparr>"
  let ?s1 = "\<lparr>db = [], collection = [zero_day_embedding],
              trace = [GetSession, ClassifyCall ''Zero-day in X'' ''critical flaw'']\<rparr>"
  let ?row = "stored_zero_day\<lparr>a_category := Some ''Software & Development''\<rparr>"
  let ?s2 = "\<lparr>db = [?row], collection = [zero_day_embedding],
              trace = [GetSession, ClassifyCall ''Zero-day in X'' ''critical flaw'']\<rparr>"
  have env: "\<not> mock_mode classifier_down"
    "\<forall>content c. responses_parse classifier_down
        (trace ?s0 @ [ClassifyCall (r_title zero_day) (r_summary zero_day)]) content = Returns c
      \<longrightarrow> c \<notin> set news_categories"
    by (simp_all add: classifier_down_def)
  have c: "classify_article classifier_down ?s0 (r_title zero_day) (r_summary zero_day) =
           (''Software & Development'', ?s1)"
    using classify_article_fallback [OF env] by (simp add: zero_day_fields log_event_def)
  have l: "log_event (ClassifyCall (r_title zero_day) (r_summary zero_day)) ?s0 = ?s1"
    by (simp add: zero_day_fields log_event_def)
  have a: "add_commit classifier_down ?s1 zero_day ''Software & Development'' = Inr (?row, ?s2)"
    by (simp add: add_commit_def Let_def next_id_def zero_day_def stored_zero_day_def
        classifier_down_def)
  have i: "a_id ?row = 1" by (simp add: stored_zero_day_def)
  have e: "add_article classifier_down ?s2 1 (r_title zero_day) (r_summary zero_day)
             (Some ''Software & Development'') (r_source zero_day) = ?s2"
    by (rule add_article_existing) (simp add: str_int_1 zero_day_fields)
  have "save_one classifier_down (0, ?s0) zero_day =
        (1, add_article classifier_down ?s2 (a_id ?row) (r_title zero_day)
              (r_summary zero_day) (Some ''Software & Development'') (r_source zero_day))"
    using save_one_stored [of classifier_down zero_day ?s0 ?row ?s2 0] c l a by simp
  then have "save_one classifier_down (0, ?s0) zero_day = (1, ?s2)"
    by (simp only: i e)
  then have "save_articles classifier_down stale_state [zero_day] = (1, ?s2)"
    by (simp add: save_articles_def stale_state_def log_event_def)
  then show ?thesis by (simp add: stored_zero_day_def)
qed

text \<open>
  Claim C7. When the embedder raises on the query text or returns the empty vector,
  \<open>search\<close> returns the empty list, having touched neither store; \<open>search_news\<close>, for a
  request with a prompt and no invalid category, then answers with a response of count 0 and
  no articles, not with an error.
\<close>

theorem search_embedding_failure:
  "(embeddings_create env (trace st @ [EmbedCall q]) (take 8000 q) = Raises
      \<or> embeddings_create env (trace st @ [EmbedCall q]) (take 8000 q) = Returns []
    \<longrightarrow> search env st q c k = ([], st\<lparr>trace := trace st @ [EmbedCall q]\<rparr>))
   \<and> (truthy (rq_prompt r)
      \<and> (truthy (rq_category r) \<longrightarrow> or_empty (rq_category r) \<in> set news_categories)
      \<and> (embeddings_create env (trace st @ [GetSession, EmbedCall (or_empty (rq_prompt r))])
            (take 8000 (or_empty (rq_prompt r))) = Raises
          \<or> embeddings_create env (trace st @ [GetSession, EmbedCall (or_empty (rq_prompt r))])
            (take 8000 (or_empty (rq_prompt r))) = Returns [])
    \<longrightarrow> search_news env st r =
          (Inr \<lparr>rs_count = 0, rs_articles = [], rs_search_type = ''semantic''\<rparr>,
           st\<lparr>trace := trace st @ [GetSession, EmbedCall (or_empty (rq_prompt r))]\<rparr>))"
proof (intro conjI impI)
  assume "embeddings_create env (trace st @ [EmbedCall q]) (take 8000 q) = Raises
      \<or> embeddings_create env (trace st @ [EmbedCall q]) (take 8000 q) = Returns []"
  from search_embedding_fails [OF this]
  show "search env st q c k = ([], st\<lparr>trace := trace st @ [EmbedCall q]\<rparr>)"
    by (simp add: log_event_def)
next
  let ?p = "or_empty (rq_prompt r)"
  let ?s1 = "log_event GetSession st"
  assume h: "truthy (rq_prompt r)
      \<and> (truthy (rq_category r) \<longrightarrow> or_empty (rq_category r) \<in> set news_categories)
      \<and> (embeddings_create env (trace st @ [GetSession, EmbedCall ?p]) (take 8000 ?p) = Raises
          \<or> embeddings_create env (trace st @ [GetSession, EmbedCall ?p]) (take 8000 ?p)
             = Returns [])"
  then have "embeddings_create env (trace ?s1 @ [EmbedCall ?p]) (take 8000 ?p) = Raises
      \<or> embeddings_create env (trace ?s1 @ [EmbedCall ?p]) (take 8000 ?p) = Returns []"
    by simp
  from search_embedding_fails [OF this]
  have s: "search env ?s1 ?p (rq_category r) (rq_limit r) = ([], log_event (EmbedCall ?p) ?s1)" .
  from h s show "search_news env st r =
          (Inr \<lparr>rs_count = 0, rs_articles = [], rs_search_type = ''semantic''\<rparr>,
           st\<lparr>trace := trace st @ [GetSession, EmbedCall ?p]\<rparr>)"
    by (simp add: search_news_def Let_def map_filter_simps log_event_def)
qed

theorem search_embedding_failure_witness:
  "search embedder_down seeded_state ''zero day'' None 1 =
     ([], seeded_state\<lparr>trace := [EmbedCall ''zero day'']\<rparr>)
   \<and> search_news embedder_down seeded_state
       \<lparr>rq_prompt = Some ''zero day'', rq_category = None, rq_limit = 1\<rparr> =
     (Inr \<lparr>rs_count = 0, rs_articles = [], rs_search_type = ''semantic''\<rparr>,
      seeded_state\<lparr>trace := [GetSession, EmbedCall ''zero day'']\<rparr>)"
proof -
  let ?r = "\<lparr>rq_prompt = Some ''zero day'', rq_category = None, rq_limit = 1\<rparr>"
  note inst = search_embedding_failure [of embedder_down seeded_state "''zero day''" None 1 ?r]
  have a: "embeddings_create embedder_down (trace seeded_state @ [EmbedCall ''zero day''])
             (take 8000 ''zero day'') = Raises
      \<or> embeddings_create embedder_down (trace seeded_state @ [EmbedCall ''zero day''])
             (take 8000 ''zero day'') = Returns []"
    by (simp add: embedder_down_def)
  have b: "truthy (rq_prompt ?r)
      \<and> (truthy (rq_category ?r) \<longrightarrow> or_empty (rq_category ?r) \<in> set news_categories)
      \<and> (embeddings_create embedder_down
            (trace seeded_state @ [GetSession, EmbedCall (or_empty (rq_prompt ?r))])
            (take 8000 (or_empty (rq_prompt ?r))) = Raises
          \<or> embeddings_create embedder_down
            (trace seeded_state @ [GetSession, EmbedCall (or_empty (rq_prompt ?r))])
            (take 8000 (or_empty (rq_prompt ?r))) = Returns [])"
    by (simp add: embedder_down_def truthy_def)
  from mp [OF conjunct1 [OF inst] a] mp [OF conjunct2 [OF inst] b] show ?thesis
    by (simp add: seeded_state_simps or_empty_def)
qed



text \<open>
  Claim C9, as amended. Whatever happens to one article, the loop goes on with the articles
  after it. When the write to the table fails, because the URL is a duplicate or because the
  commit raises, the rollback leaves the count and both stores as they were. When the write
  succeeds the row stays and is counted, whatever the classifier, the embedder and the
  collection do afterwards: their exceptions are caught inside the adapters and undo
  nothing. The count that the batch returns is the number of rows it added. The claim as
  stated, with the state changes undone after an adapter exception too, fails.
\<close>

theorem save_articles_isolates_failures:
  "save_loop env (xs @ d # ys) acc = save_loop env ys (save_one env (save_loop env xs acc) d)
   \<and> (r_url d \<in> set (map a_url (db st))
        \<or> (\<forall>a. commit_raises env (trace st @ [ClassifyCall (r_title d) (r_summary d)]) a)
      \<longrightarrow> save_one env (n, st) d =
            (n, st\<lparr>trace := trace st @ [ClassifyCall (r_title d) (r_summary d)]\<rparr>))
   \<and> (r_url d \<notin> set (map a_url (db st))
        \<and> (\<forall>a. \<not> commit_raises env (trace st @ [ClassifyCall (r_title d) (r_summary d)]) a)
      \<longrightarrow> fst (save_one env (n, st) d) = n + 1
          \<and> (\<exists>a. db (snd (save_one env (n, st) d)) = db st @ [a] \<and> a_url a = r_url d))
   \<and> fst (save_articles env st ds) + length (db st) =
       length (db (snd (save_articles env st ds)))"
proof -
  have "save_loop env (xs @ d # ys) acc = save_loop env ys (save_one env (save_loop env xs acc) d)"
    by (simp add: save_loop_append)
  moreover have "r_url d \<in> set (map a_url (db st))
        \<or> (\<forall>a. commit_raises env (trace st @ [ClassifyCall (r_title d) (r_summary d)]) a)
      \<longrightarrow> save_one env (n, st) d =
            (n, st\<lparr>trace := trace st @ [ClassifyCall (r_title d) (r_summary d)]\<rparr>)"
    using save_one_duplicate [of d st env n] save_one_commit_fault [of env st d n]
    by (auto simp: log_event_def)
  moreover have "r_url d \<notin> set (map a_url (db st))
        \<and> (\<forall>a. \<not> commit_raises env (trace st @ [ClassifyCall (r_title d) (r_summary d)]) a)
      \<longrightarrow> fst (save_one env (n, st) d) = n + 1
          \<and> (\<exists>a. db (snd (save_one env (n, st) d)) = db st @ [a] \<and> a_url a = r_url d)"
    using save_one_accepted [of d st env n] by blast
  moreover have "fst (save_articles env st ds) + length (db st) =
       length (db (snd (save_articles env st ds)))"
    using save_loop_count [of env ds 0 "log_event GetSession st"]
    by (simp add: save_articles_def)
  ultimately show ?thesis by blast
qed

theorem save_articles_isolates_failures_witness:
  "save_one database_down (0, empty_state) zero_day =
     (0, empty_state\<lparr>trace := [ClassifyCall ''Zero-day in X'' ''critical flaw'']\<rparr>)
   \<and> fst (save_one embedder_down (0, empty_state) zero_day) = 1
   \<and> (\<exists>a. db (snd (save_one embedder_down (0, empty_state) zero_day)) = [a]
          \<and> a_url a = ''https://e/1'')"
proof -
  have down: "\<forall>a. commit_raises database_down
                (trace empty_state @ [ClassifyCall (r_title zero_day) (r_summary zero_day)]) a"
    by (simp add: database_down_def)
  have up: "r_url zero_day \<notin> set (map a_url (db empty_state))
     \<and> (\<forall>a. \<not> commit_raises embedder_down
                (trace empty_state @ [ClassifyCall (r_title zero_day) (r_summary zero_day)]) a)"
    by (simp add: embedder_down_def seeded_state_simps)
  from save_articles_isolates_failures [of database_down "[]" zero_day "[]" "(0, empty_state)"
      empty_state 0 "[]"] down
  have 1: "save_one database_down (0, empty_state) zero_day =
     (0, empty_state\<lparr>trace := [ClassifyCall ''Zero-day in X'' ''critical flaw'']\<rparr>)"
    by (simp add: zero_day_fields seeded_state_simps)
  from save_articles_isolates_failures [of embedder_down "[]" zero_day "[]" "(0, empty_state)"
      empty_state 0 "[]"] up
  have 2: "fst (save_one embedder_down (0, empty_state) zero_day) = 1
    \<and> (\<exists>a. db (snd (save_one embedder_down (0, empty_state) zero_day)) = [a]
          \<and> a_url a = ''https://e/1'')"
    by (simp add: zero_day_fields seeded_state_simps)
  from 1 2 show ?thesis by blast
qed

theorem adapter_failure_not_undone_counterexample:
  "embeddings_create embedder_down
     [GetSession, ClassifyCall ''Zero-day in X'' ''critical flaw'',
      EmbedCall ''Zero-day in X. critical flaw'']
     ''Zero-day in X. critical flaw'' = Raises
   \<and> fst (save_articles embedder_down empty_state [zero_day]) = 1
   \<and> db (snd (save_articles embedder_down empty_state [zero_day])) = [stored_zero_day]
   \<and> collection (snd (save_articles embedder_down empty_state [zero_day])) = []"
proof -
  let ?s0 = "\<lparr>db = [], collection = [], trace = [GetSession]\<rparr>"
  let ?s1 = "\<lparr>db = [], collection = [],
              trace = [GetSession, ClassifyCall ''Zero-day in X'' ''critical flaw'']\<rparr>"
  let ?s2 = "\<lparr>db = [stored_zero_day], collection = [],
              trace = [GetSession, ClassifyCall ''Zero-day in X'' ''critical flaw'']\<rparr>"
  have env: "\<not> mock_mode embedder_down"
    "\<forall>tr content. responses_parse embedder_down tr content = Returns ''Cybersecurity''"
    "\<forall>tr a. \<not> commit_raises embedder_down tr a" "\<forall>tr. utcnow embedder_down tr = 0"
    "\<forall>tr text. embeddings_create embedder_down tr text = Raises"
    by (simp_all add: embedder_down_def)
  have c: "classify_article embedder_down ?s0 (r_title zero_day) (r_summary zero_day) =
           (''Cybersecurity'', ?s1)"
    using stub_classify [OF env(1,2), of ?s0 "r_title zero_day" "r_summary zero_day"]
    by (simp add: zero_day_fields log_event_def)
  have l: "log_event (ClassifyCall (r_title zero_day) (r_summary zero_day)) ?s0 = ?s1"
    by (simp add: zero_day_fields log_event_def)
  have a: "add_commit embedder_down ?s1 zero_day ''Cybersecurity'' = Inr (stored_zero_day, ?s2)"
    using zero_day_commit [OF env(3,4)] by simp
  have e: "add_article embedder_down ?s2 1 ''Zero-day in X'' ''critical flaw''
             (Some ''Cybersecurity'') ''rss:test'' =
           log_event (EmbedCall ''Zero-day in X. critical flaw'') ?s2"
    using add_article_embed_fails [of 1 ?s2 embedder_down "''Zero-day in X''" "''critical flaw''"
        "Some ''Cybersecurity''" "''rss:test''"] env(5)
    by (simp add: str_int_1)
  have "save_one embedder_down (0, ?s0) zero_day =
        (1, add_article embedder_down ?s2 (a_id stored_zero_day) (r_title zero_day)
              (r_summary zero_day) (Some ''Cybersecurity'') (r_source zero_day))"
    using save_one_stored [of embedder_down zero_day ?s0 stored_zero_day ?s2 0] c l a by simp
  then have "save_one embedder_down (0, ?s0) zero_day =
        (1, log_event (EmbedCall ''Zero-day in X. critical flaw'') ?s2)"
    by (simp only: zero_day_fields e)
  then have "save_articles embedder_down empty_state [zero_day] =
        (1, log_event (EmbedCall ''Zero-day in X. critical flaw'') ?s2)"
    by (simp add: save_articles_def empty_state_def log_event_def)
  with env(5) show ?thesis by simp
qed

text \<open>
  Claim C10. In an iteration of \<open>save_articles\<close> the classifier is called first and writes
  nothing to the table; its answer is one of \<open>news_categories\<close>. The one insert of the
  iteration is then attempted with that answer. If it fails, nothing is written. If it goes
  through, the state that the insert returns already holds the new row with that category
  and has the classifier call behind it, and nothing after the insert writes to the table
  again. So every row carries its category from the moment it is written, and a row with a
  null category awaiting a later write is never produced; the rows that a batch adds all
  carry one of \<open>news_categories\<close>.
\<close>

theorem inserted_articles_carry_category:
  "db (snd (classify_article env st (r_title d) (r_summary d))) = db st
   \<and> fst (classify_article env st (r_title d) (r_summary d)) \<in> set news_categories
   \<and> (case add_commit env (snd (classify_article env st (r_title d) (r_summary d))) d
              (fst (classify_article env st (r_title d) (r_summary d))) of
        Inl e \<Rightarrow>
          save_one env (n, st) d = (n, snd (classify_article env st (r_title d) (r_summary d)))
      | Inr (a, st2) \<Rightarrow>
          db st2 = db st @ [a]
          \<and> a_category a = Some (fst (classify_article env st (r_title d) (r_summary d)))
          \<and> trace st2 = trace st @ [ClassifyCall (r_title d) (r_summary d)]
          \<and> db (snd (save_one env (n, st) d)) = db st2)
   \<and> (\<exists>new. db (snd (save_articles env st ds)) = db st @ new
       \<and> (\<forall>a \<in> set new. \<exists>c \<in> set news_categories. a_category a = Some c))"
proof -
  let ?c = "fst (classify_article env st (r_title d) (r_summary d))"
  let ?st1 = "snd (classify_article env st (r_title d) (r_summary d))"
  have st1: "?st1 = log_event (ClassifyCall (r_title d) (r_summary d)) st"
    by (rule classify_article_state)
  have 1: "db ?st1 = db st" unfolding st1 by simp
  have 2: "?c \<in> set news_categories" by (rule classify_article_category)
  have 3: "case add_commit env ?st1 d ?c of
        Inl e \<Rightarrow> save_one env (n, st) d = (n, ?st1)
      | Inr (a, st2) \<Rightarrow>
          db st2 = db st @ [a] \<and> a_category a = Some ?c
          \<and> trace st2 = trace st @ [ClassifyCall (r_title d) (r_summary d)]
          \<and> db (snd (save_one env (n, st) d)) = db st2"
  proof (cases "add_commit env ?st1 d ?c")
    case (Inl e)
    then have "save_one env (n, st) d = (n, ?st1)"
      unfolding st1 by (rule save_one_rejected)
    with Inl show ?thesis by simp
  next
    case (Inr p)
    obtain a st2 where p: "p = (a, st2)" by (cases p)
    from Inr p have ok: "add_commit env (log_event (ClassifyCall (r_title d) (r_summary d)) st) d ?c
                         = Inr (a, st2)"
      unfolding st1 by simp
    have "db st2 = db st @ [a]" "trace st2 = trace st @ [ClassifyCall (r_title d) (r_summary d)]"
      using add_commit_Inr(7) [OF ok] by simp_all
    moreover have "a_category a = Some ?c" using add_commit_Inr(2) [OF ok] .
    moreover have "db (snd (save_one env (n, st) d)) = db st2"
      using save_one_stored [OF ok, of n] by simp
    ultimately show ?thesis using Inr p by simp
  qed
  have 4: "\<exists>new. db (snd (save_articles env st ds)) = db st @ new
       \<and> (\<forall>a \<in> set new. \<exists>c \<in> set news_categories. a_category a = Some c)"
    using save_loop_db_categories [of env ds 0 "log_event GetSession st"]
    by (simp add: save_articles_def)
  from 1 2 3 4 show ?thesis by blast
qed

theorem inserted_articles_carry_category_witness:
  "add_commit stub_env
     (snd (classify_article stub_env empty_state (r_title zero_day) (r_summary zero_day)))
     zero_day
     (fst (classify_article stub_env empty_state (r_title zero_day) (r_summary zero_day))) =
     Inr (stored_zero_day,
          \<lparr>db = [stored_zero_day], collection = [],
           trace = [ClassifyCall ''Zero-day in X'' ''critical flaw'']\<rparr>)
   \<and> a_category stored_zero_day = Some ''Cybersecurity''
   \<and> db (snd (save_one stub_env (0, empty_state) zero_day)) = [stored_zero_day]
   \<and> db (snd (save_articles stub_env empty_state [zero_day])) = [stored_zero_day]
   \<and> (\<exists>c. c \<in> set news_categories \<and> a_category stored_zero_day = Some c)"
proof -
  note inst = inserted_articles_carry_category [of stub_env empty_state zero_day 0 "[zero_day]"]
  let ?s1 = "\<lparr>db = [], collection = [],
              trace = [ClassifyCall ''Zero-day in X'' ''critical flaw'']\<rparr>"
  let ?s2 = "\<lparr>db = [stored_zero_day], collection = [],
              trace = [ClassifyCall ''Zero-day in X'' ''critical flaw'']\<rparr>"
  have c: "classify_article stub_env empty_state (r_title zero_day) (r_summary zero_day) =
           (''Cybersecurity'', ?s1)"
    using stub_classify [of stub_env empty_state "r_title zero_day" "r_summary zero_day"]
    by (simp add: zero_day_fields log_event_def empty_state_def)
  have a: "add_commit stub_env ?s1 zero_day ''Cybersecurity'' = Inr (stored_zero_day, ?s2)"
    using zero_day_commit [of stub_env] by simp
  from conjunct1 [OF conjunct2 [OF conjunct2 [OF inst]]]
  have row: "a_category stored_zero_day = Some ''Cybersecurity''
    \<and> db (snd (save_one stub_env (0, empty_state) zero_day)) = [stored_zero_day]"
    by (simp add: c a)
  have d: "db (snd (save_articles stub_env empty_state [zero_day])) = [stored_zero_day]"
    by (simp add: zero_day_ingested)
  from conjunct2 [OF conjunct2 [OF conjunct2 [OF inst]]]
  obtain new where
    n: "db (snd (save_articles stub_env empty_state [zero_day])) = db empty_state @ new"
    and k: "\<forall>a \<in> set new. \<exists>c \<in> set news_categories. a_category a = Some c"
    by blast
  from n d have "new = [stored_zero_day]" by (simp add: empty_state_def)
  with k have "\<exists>c \<in> set news_categories. a_category stored_zero_day = Some c" by simp
  with row d c a show ?thesis by auto
qed

end
